theory Spec2Isabelle
  imports Main "HOL-Library.AList" "HOL-Library.Multiset"
begin

section \<open>Values\<close>

text \<open>
  The tool \<^verbatim>\<open>tools/sckan_connectivity.py\<close> moves connectivity knowledge between a remote
  source, a local SQLite knowledge store and a JSON snapshot file. A snapshot is whatever
  \<^verbatim>\<open>json.load\<close> returns, so it is modelled as an untyped JSON value and every dynamic check
  Python performs on it is a branch of the model. Numbers are the integers of JSON (a
  Python \<^verbatim>\<open>int\<close>); floating point numbers are left out. A \<^verbatim>\<open>dict\<close> is an association list
  in insertion order, read with \<open>map_of\<close> and written with \<open>AList.update\<close>.
\<close>

datatype json =
    JNull
  | JBool bool
  | JInt int
  | JStr string
  | JArr "json list"
  | JObj "(string \<times> json) list"

text \<open>The exceptions that can leave one of the operations, by their Python names.\<close>

datatype error =
    SystemExit
  | IOError
  | ValueError
  | KeyError
  | TypeError
  | IndexError
  | OverflowError
  | ProgrammingError
  | IntegrityError
  | OperationalError
  | RemoteUnavailableError

text \<open>Sequencing of steps that may raise: the first exception ends the computation.\<close>

definition ebind :: "error + 'a \<Rightarrow> ('a \<Rightarrow> error + 'b) \<Rightarrow> error + 'b" where
  "ebind r k = (case r of Inl e \<Rightarrow> Inl e | Inr v \<Rightarrow> k v)"

text \<open>A \<^verbatim>\<open>for\<close> loop that carries a value from one iteration to the next.\<close>

fun for_each :: "('a \<Rightarrow> 's \<Rightarrow> error + 's) \<Rightarrow> 'a list \<Rightarrow> 's \<Rightarrow> error + 's" where
  "for_each body [] s = Inr s"
| "for_each body (x # xs) s = ebind (body x s) (for_each body xs)"

subsection \<open>What Python does with a JSON value\<close>

text \<open>\<^verbatim>\<open>obj[key]\<close> with a string key: only a \<^verbatim>\<open>dict\<close> accepts it.\<close>

definition py_getitem :: "json \<Rightarrow> string \<Rightarrow> error + json" where
  "py_getitem obj key =
     (case obj of
        JObj kvs \<Rightarrow> (case map_of kvs key of None \<Rightarrow> Inl KeyError | Some v \<Rightarrow> Inr v)
      | _ \<Rightarrow> Inl TypeError)"

text \<open>
  \<^verbatim>\<open>obj[i]\<close> with a non-negative integer index: a list gives its element, a string its
  one-character substring, a \<^verbatim>\<open>dict\<close> has no integer key, the other values cannot be
  subscripted.
\<close>

definition py_index :: "json \<Rightarrow> nat \<Rightarrow> error + json" where
  "py_index obj i =
     (case obj of
        JArr xs \<Rightarrow> (if i < length xs then Inr (xs ! i) else Inl IndexError)
      | JStr s \<Rightarrow> (if i < length s then Inr (JStr [s ! i]) else Inl IndexError)
      | JObj kvs \<Rightarrow> Inl KeyError
      | _ \<Rightarrow> Inl TypeError)"

text \<open>
  \<^verbatim>\<open>iter(obj)\<close>, as taken by a \<^verbatim>\<open>for\<close> loop, a generator expression and \<^verbatim>\<open>tuple(obj)\<close>:
  a list gives its elements, a string its characters, a \<^verbatim>\<open>dict\<close> its keys.
\<close>

definition py_iter :: "json \<Rightarrow> error + json list" where
  "py_iter obj =
     (case obj of
        JArr xs \<Rightarrow> Inr xs
      | JStr s \<Rightarrow> Inr (map (\<lambda>c. JStr [c]) s)
      | JObj kvs \<Rightarrow> Inr (map (\<lambda>kv. JStr (fst kv)) kvs)
      | _ \<Rightarrow> Inl TypeError)"

text \<open>
  Members of a \<^verbatim>\<open>set\<close> are compared by hash and \<^verbatim>\<open>==\<close>. Lists and dicts are unhashable
  (\<^verbatim>\<open>TypeError\<close>); \<^verbatim>\<open>True == 1\<close> and \<^verbatim>\<open>False == 0\<close>, so a Boolean and its integer are the
  same member.
\<close>

datatype hashable = HNone | HInt int | HStr string

definition py_hash :: "json \<Rightarrow> error + hashable" where
  "py_hash v =
     (case v of
        JNull \<Rightarrow> Inr HNone
      | JBool b \<Rightarrow> Inr (HInt (if b then 1 else 0))
      | JInt i \<Rightarrow> Inr (HInt i)
      | JStr s \<Rightarrow> Inr (HStr s)
      | _ \<Rightarrow> Inl TypeError)"

fun py_hash_all :: "json list \<Rightarrow> error + hashable list" where
  "py_hash_all [] = Inr []"
| "py_hash_all (v # vs) =
     ebind (py_hash v) (\<lambda>h. ebind (py_hash_all vs) (\<lambda>hs. Inr (h # hs)))"

section \<open>The knowledge store\<close>

text \<open>
  The store is the SQLite database behind \<^verbatim>\<open>KnowledgeStore\<close>, a class of the package
  \<^verbatim>\<open>mapknowledge\<close>. A column holds NULL, an integer or text. The columns written with
  \<^verbatim>\<open>json.dumps\<close> (\<^verbatim>\<open>knowledge.knowledge\<close> and \<^verbatim>\<open>connectivity_nodes.node\<close>) hold JSON
  text, represented by the value it encodes: \<^verbatim>\<open>json.dumps\<close> of a tuple is that of the list
  of its members, and \<^verbatim>\<open>json.loads\<close> gives the value back.
\<close>

datatype sqlval = SNull | SInt int | SText string

record tables =
  knowledge :: "(sqlval \<times> sqlval \<times> json) list"
  labels :: "(sqlval \<times> sqlval) list"
  publications :: "(sqlval \<times> sqlval \<times> sqlval) list"
  connectivity_nodes :: "(sqlval \<times> json \<times> sqlval) list"

text \<open>
  A connection sees its own pending changes; the file holds what was last committed. An
  exception that leaves the tool ends the process, and the pending changes with it.
\<close>

record db =
  committed :: tables
  pending :: tables

definition connect :: "tables \<Rightarrow> db" where
  "connect t = \<lparr>committed = t, pending = t\<rparr>"

definition commit :: "db \<Rightarrow> db" where
  "commit d = d\<lparr>committed := pending d\<rparr>"

text \<open>
  Binding a Python value to a \<^verbatim>\<open>?\<close> placeholder: \<^verbatim>\<open>None\<close>, integers of 64 bits (a
  Boolean is one) and strings are accepted.
\<close>

definition sql_bind :: "json \<Rightarrow> error + sqlval" where
  "sql_bind v =
     (case v of
        JNull \<Rightarrow> Inr SNull
      | JBool b \<Rightarrow> Inr (SInt (if b then 1 else 0))
      | JInt i \<Rightarrow>
          (if - (2 ^ 63) \<le> i \<and> i < 2 ^ 63 then Inr (SInt i) else Inl OverflowError)
      | JStr s \<Rightarrow> Inr (SText s)
      | _ \<Rightarrow> Inl ProgrammingError)"

text \<open>The Python value of a column read back from a row.\<close>

definition sql_value :: "sqlval \<Rightarrow> json" where
  "sql_value c = (case c of SNull \<Rightarrow> JNull | SInt i \<Rightarrow> JInt i | SText s \<Rightarrow> JStr s)"

text \<open>\<^verbatim>\<open>column = ?\<close> in a \<^verbatim>\<open>where\<close> clause and in a unique index: NULL equals nothing.\<close>

definition sql_eq :: "sqlval \<Rightarrow> sqlval \<Rightarrow> bool" where
  "sql_eq a b = (a \<noteq> SNull \<and> a = b)"

text \<open>
  Preparing \<^verbatim>\<open>insert into t(c1, ..., cn) values (?, ..., ?)\<close>: SQLite refuses the
  statement when the number of values differs from the number of columns.
\<close>

definition prepare_insert :: "nat \<Rightarrow> nat \<Rightarrow> error + unit" where
  "prepare_insert columns placeholders =
     (if columns = placeholders then Inr () else Inl OperationalError)"

subsection \<open>The statements the tool executes\<close>

text \<open>\<^verbatim>\<open>delete from knowledge where source=?\<close>\<close>

definition delete_knowledge :: "json \<Rightarrow> tables \<Rightarrow> error + tables" where
  "delete_knowledge source t =
     ebind (sql_bind source) (\<lambda>s.
       Inr (t\<lparr>knowledge := filter (\<lambda>r. \<not> sql_eq (fst r) s) (knowledge t)\<rparr>))"

text \<open>\<^verbatim>\<open>delete from connectivity_nodes where source=?\<close>\<close>

definition delete_connectivity_nodes :: "json \<Rightarrow> tables \<Rightarrow> error + tables" where
  "delete_connectivity_nodes source t =
     ebind (sql_bind source) (\<lambda>s.
       Inr (t\<lparr>connectivity_nodes :=
                filter (\<lambda>r. \<not> sql_eq (fst r) s) (connectivity_nodes t)\<rparr>))"

text \<open>
  Modelled from the spec: the schema of the store is declared in \<^verbatim>\<open>mapknowledge\<close>. The
  spec gives \<^verbatim>\<open>knowledge(source, entity, payload_json)\<close> with (source, entity) unique,
  \<^verbatim>\<open>labels(entity, label)\<close> with entity unique, \<^verbatim>\<open>publications(source, entity, publication)\<close>
  and \<^verbatim>\<open>connectivity_nodes(source, node_json, path_entity)\<close>.
\<close>

definition knowledge_conflict :: "sqlval \<Rightarrow> sqlval \<Rightarrow> (sqlval \<times> sqlval \<times> json) \<Rightarrow> bool" where
  "knowledge_conflict s e r = (sql_eq (fst r) s \<and> sql_eq (fst (snd r)) e)"

text \<open>
  \<^verbatim>\<open>insert into knowledge (source, entity, knowledge) values (?, ?, ?)\<close> with the
  parameters \<^verbatim>\<open>(source, entity, json.dumps(payload))\<close>.
\<close>

definition insert_knowledge :: "json \<Rightarrow> json \<Rightarrow> json \<Rightarrow> tables \<Rightarrow> error + tables" where
  "insert_knowledge source entity payload t =
     ebind (prepare_insert 3 3) (\<lambda>_.
     ebind (sql_bind source) (\<lambda>s.
     ebind (sql_bind entity) (\<lambda>e.
       if list_ex (knowledge_conflict s e) (knowledge t) then Inl IntegrityError
       else Inr (t\<lparr>knowledge := knowledge t @ [(s, e, payload)]\<rparr>))))"

text \<open>
  \<^verbatim>\<open>replace into labels values (?, ?)\<close>: the row of the same entity, if any, is deleted
  and the new row inserted.
\<close>

definition replace_label :: "json \<Rightarrow> json \<Rightarrow> tables \<Rightarrow> error + tables" where
  "replace_label entity label t =
     ebind (prepare_insert 2 2) (\<lambda>_.
     ebind (sql_bind entity) (\<lambda>e.
     ebind (sql_bind label) (\<lambda>l.
       Inr (t\<lparr>labels := filter (\<lambda>r. \<not> sql_eq (fst r) e) (labels t) @ [(e, l)]\<rparr>))))"

text \<open>\<^verbatim>\<open>delete from publications where source=? and entity=?\<close>\<close>

definition delete_publications :: "json \<Rightarrow> json \<Rightarrow> tables \<Rightarrow> error + tables" where
  "delete_publications source entity t =
     ebind (sql_bind source) (\<lambda>s.
     ebind (sql_bind entity) (\<lambda>e.
       Inr (t\<lparr>publications :=
                filter (\<lambda>r. \<not> (sql_eq (fst r) s \<and> sql_eq (fst (snd r)) e))
                  (publications t)\<rparr>)))"

text \<open>
  \<^verbatim>\<open>executemany('insert into publications(source, entity, publication) values (?, ?)',
  rows)\<close>. The statement is prepared before the first row is taken, with the number of
  \<^verbatim>\<open>?\<close> written in it; each row is a tuple (source, entity, reference).
\<close>

definition insert_publication_row ::
  "nat \<Rightarrow> json \<Rightarrow> json \<Rightarrow> json \<Rightarrow> tables \<Rightarrow> error + tables" where
  "insert_publication_row placeholders source entity reference t =
     (if placeholders \<noteq> 3 then Inl ProgrammingError
      else
        ebind (sql_bind source) (\<lambda>s.
        ebind (sql_bind entity) (\<lambda>e.
        ebind (sql_bind reference) (\<lambda>p.
          Inr (t\<lparr>publications := publications t @ [(s, e, p)]\<rparr>)))))"

definition insert_publications ::
  "nat \<Rightarrow> json \<Rightarrow> json \<Rightarrow> json list \<Rightarrow> tables \<Rightarrow> error + tables" where
  "insert_publications placeholders source entity references t =
     ebind (prepare_insert 3 placeholders) (\<lambda>_.
       for_each (insert_publication_row placeholders source entity) references t)"

text \<open>
  \<^verbatim>\<open>insert into connectivity_nodes (source, node, path) values (?, ?, ?)\<close> with the
  parameters \<^verbatim>\<open>(source, json.dumps(node), entity)\<close>.
\<close>

definition insert_connectivity_node :: "json \<Rightarrow> json \<Rightarrow> json \<Rightarrow> tables \<Rightarrow> error + tables" where
  "insert_connectivity_node source node entity t =
     ebind (prepare_insert 3 3) (\<lambda>_.
     ebind (sql_bind source) (\<lambda>s.
     ebind (sql_bind entity) (\<lambda>e.
       Inr (t\<lparr>connectivity_nodes := connectivity_nodes t @ [(s, node, e)]\<rparr>))))"

section \<open>Restore\<close>

text \<open>
  \<^verbatim>\<open>'label' in knowledge\<close> and \<^verbatim>\<open>knowledge.get(key, default)\<close>. Both are reached only after
  \<^verbatim>\<open>knowledge['id']\<close> has succeeded, that is, for a \<^verbatim>\<open>dict\<close>.
\<close>

definition py_has_key :: "json \<Rightarrow> string \<Rightarrow> bool" where
  "py_has_key obj key = (case obj of JObj kvs \<Rightarrow> map_of kvs key \<noteq> None | _ \<Rightarrow> False)"

definition py_get :: "json \<Rightarrow> string \<Rightarrow> json \<Rightarrow> json" where
  "py_get obj key fallback =
     (case obj of
        JObj kvs \<Rightarrow> (case map_of kvs key of None \<Rightarrow> fallback | Some v \<Rightarrow> v)
      | _ \<Rightarrow> fallback)"

text \<open>
  The body of the innermost loop (lines 138 to 142): the node is rebuilt as the tuple
  \<^verbatim>\<open>(node[0], tuple(node[1]))\<close>, looked up in \<^verbatim>\<open>seen_nodes\<close>, and inserted on its first
  sighting. The loop carries \<^verbatim>\<open>seen_nodes\<close> and the tables.
\<close>

type_synonym node_key = "hashable \<times> hashable list"

definition restore_node ::
  "json \<Rightarrow> json \<Rightarrow> json \<Rightarrow> node_key list \<times> tables \<Rightarrow> error + node_key list \<times> tables" where
  "restore_node knowledge_source entity node st =
     ebind (py_index node 0) (\<lambda>term.
     ebind (py_index node 1) (\<lambda>quals.
     ebind (py_iter quals) (\<lambda>qs.
     ebind (py_hash term) (\<lambda>h.
     ebind (py_hash_all qs) (\<lambda>hs.
       if (h, hs) \<in> set (fst st) then Inr st
       else
         ebind (insert_connectivity_node knowledge_source (JArr [term, JArr qs]) entity (snd st))
           (\<lambda>t. Inr ((h, hs) # fst st, t)))))))"

definition restore_edge ::
  "json \<Rightarrow> json \<Rightarrow> json \<Rightarrow> node_key list \<times> tables \<Rightarrow> error + node_key list \<times> tables" where
  "restore_edge knowledge_source entity edge st =
     ebind (py_iter edge) (\<lambda>nodes.
       for_each (restore_node knowledge_source entity) nodes st)"

text \<open>Lines 135 to 142: \<^verbatim>\<open>seen_nodes\<close> starts empty for the record at hand.\<close>

definition restore_connectivity :: "json \<Rightarrow> json \<Rightarrow> json \<Rightarrow> tables \<Rightarrow> error + tables" where
  "restore_connectivity knowledge_source entity connectivity t =
     ebind (py_iter connectivity) (\<lambda>edges.
     ebind (for_each (restore_edge knowledge_source entity) edges ([], t)) (\<lambda>st.
       Inr (snd st)))"

text \<open>
  Lines 131 to 133. The generator expression takes \<^verbatim>\<open>iter(references)\<close> when it is built,
  after the \<^verbatim>\<open>delete\<close>; the insert statement is written with two \<^verbatim>\<open>?\<close>.
\<close>

definition restore_references :: "json \<Rightarrow> json \<Rightarrow> json \<Rightarrow> tables \<Rightarrow> error + tables" where
  "restore_references knowledge_source entity references t =
     ebind (delete_publications knowledge_source entity t) (\<lambda>t'.
     ebind (py_iter references) (\<lambda>refs.
       insert_publications 2 knowledge_source entity refs t'))"

text \<open>
  The body of the loop over the records of the snapshot (lines 123 to 142); \<open>rec\<close> is
  the loop variable \<^verbatim>\<open>knowledge\<close>.
\<close>

definition restore_record :: "json \<Rightarrow> json \<Rightarrow> tables \<Rightarrow> error + tables" where
  "restore_record knowledge_source rec t =
     ebind (py_getitem rec ''id'') (\<lambda>entity.
     ebind (insert_knowledge knowledge_source entity rec t) (\<lambda>t1.
     ebind (if py_has_key rec ''label''
            then ebind (py_getitem rec ''label'') (\<lambda>label. replace_label entity label t1)
            else Inr t1) (\<lambda>t2.
     ebind (if py_has_key rec ''references''
            then restore_references knowledge_source entity
                   (py_get rec ''references'' (JArr [])) t2
            else Inr t2) (\<lambda>t3.
       if py_has_key rec ''connectivity''
       then ebind (py_getitem rec ''connectivity'') (\<lambda>connectivity.
              restore_connectivity knowledge_source entity connectivity t3)
       else Inr t3))))"

text \<open>
  Lines 118 to 142, the statements of one restore. \<^verbatim>\<open>store.clean_connectivity\<close> is a
  method of \<^verbatim>\<open>mapknowledge\<close>, outside this repository: it is the parameter
  \<open>clean_connectivity\<close>, any function of the source and the tables of the open
  transaction.
\<close>

definition restore_statements ::
  "(json \<Rightarrow> tables \<Rightarrow> tables) \<Rightarrow> json \<Rightarrow> tables \<Rightarrow> error + tables" where
  "restore_statements clean_connectivity saved_knowledge t =
     ebind (py_getitem saved_knowledge ''source'') (\<lambda>knowledge_source.
     ebind (delete_knowledge knowledge_source (clean_connectivity knowledge_source t)) (\<lambda>t1.
     ebind (delete_connectivity_nodes knowledge_source t1) (\<lambda>t2.
     ebind (py_getitem saved_knowledge ''knowledge'') (\<lambda>records.
     ebind (py_iter records) (\<lambda>recs.
       for_each (restore_record knowledge_source) recs t2)))))"

text \<open>
  \<open>restore\<close> takes the parsed snapshot and \<^verbatim>\<open>store.db\<close> (\<^verbatim>\<open>None\<close> when the store could not
  be opened). It returns the exception that ended it, if any, and the connection as it is
  left: the only \<^verbatim>\<open>commit\<close> is on line 143.
\<close>

definition restore ::
  "(json \<Rightarrow> tables \<Rightarrow> tables) \<Rightarrow> json \<Rightarrow> db option \<Rightarrow> error option \<times> db option" where
  "restore clean_connectivity saved_knowledge store_db =
     (case store_db of
        None \<Rightarrow> (Some IOError, None)
      | Some d \<Rightarrow>
          (case restore_statements clean_connectivity saved_knowledge (pending d) of
             Inl e \<Rightarrow> (Some e, Some d)
           | Inr t \<Rightarrow> (None, Some (commit (d\<lparr>pending := t\<rparr>)))))"

text \<open>What the store file holds once the process has ended.\<close>

definition persisted :: "error option \<times> db option \<Rightarrow> tables option" where
  "persisted outcome = map_option committed (snd outcome)"

section \<open>Extract\<close>

text \<open>\<^verbatim>\<open>obj[key] = v\<close> with a string key: a \<^verbatim>\<open>dict\<close> keeps the position of a key it has.\<close>

definition py_setitem :: "json \<Rightarrow> string \<Rightarrow> json \<Rightarrow> error + json" where
  "py_setitem obj key v =
     (case obj of JObj kvs \<Rightarrow> Inr (JObj (AList.update key v kvs)) | _ \<Rightarrow> Inl TypeError)"

text \<open>
  \<^verbatim>\<open>select entity, knowledge from knowledge where source=?\<close>. The statement has no
  \<^verbatim>\<open>order by\<close>, so the order of its rows is the choice of SQLite, which may answer from
  the unique index rather than in insertion order. That choice is the parameter
  \<open>query_order\<close>, applied to the matching rows.
\<close>

type_synonym row_order = "(sqlval \<times> json) list \<Rightarrow> (sqlval \<times> json) list"

definition select_knowledge :: "row_order \<Rightarrow> sqlval \<Rightarrow> tables \<Rightarrow> (sqlval \<times> json) list" where
  "select_knowledge query_order s t =
     query_order (map snd (filter (\<lambda>r. sql_eq (fst r) s) (knowledge t)))"

text \<open>Lines 97 to 99: the row's payload, with the entity stored under \<^verbatim>\<open>id\<close>.\<close>

definition extract_row :: "sqlval \<times> json \<Rightarrow> json list \<Rightarrow> error + json list" where
  "extract_row row saved =
     ebind (py_setitem (snd row) ''id'' (sql_value (fst row))) (\<lambda>rec.
       Inr (saved @ [rec]))"

text \<open>
  \<open>extract_json\<close> takes the order of the rows of a query, \<^verbatim>\<open>store.source\<close>, resolved by \<^verbatim>\<open>KnowledgeStore\<close> from
  \<^verbatim>\<open>args.source\<close> (\<open>JNull\<close> for \<^verbatim>\<open>None\<close>), and \<^verbatim>\<open>store.db\<close>. It returns the document
  written to \<^verbatim>\<open><source>.json\<close>; the connection is read only.
\<close>

definition extract_json ::
  "row_order \<Rightarrow> json \<Rightarrow> db option \<Rightarrow> (error + json) \<times> db option" where
  "extract_json query_order store_source store_db =
     (case store_db of
        None \<Rightarrow> (Inl IOError, None)
      | Some d \<Rightarrow>
          (if store_source = JNull then Inl ValueError
           else
             ebind (sql_bind store_source) (\<lambda>s.
             ebind (for_each extract_row (select_knowledge query_order s (pending d)) []) (\<lambda>saved.
               Inr (JObj [(''source'', store_source), (''knowledge'', JArr saved)]))),
           Some d))"

section \<open>Load\<close>

text \<open>
  The remote knowledge source, reached through \<^verbatim>\<open>KnowledgeStore\<close>: the source id it
  resolves to (\<^verbatim>\<open>store.source\<close>), the list returned by \<^verbatim>\<open>store.connectivity_paths()\<close>
  and the record the remote gives for a path. The last two may raise. A remote that cannot
  be reached or authenticated is the exception it answers with.
\<close>

record remote =
  source_id :: json
  connectivity_paths :: "error + json list"
  fetch_knowledge :: "json \<Rightarrow> error + json"

text \<open>
  Modelled from the spec: the constructor \<^verbatim>\<open>KnowledgeStore(..., use_sckan=True)\<close> belongs to
  \<^verbatim>\<open>mapknowledge\<close>. The spec has Load resolve the remote's effective source id first and
  fail there when the remote cannot be reached or authenticated.
\<close>

definition resolve_source :: "error + remote \<Rightarrow> error + json \<times> remote" where
  "resolve_source r = (case r of Inl e \<Rightarrow> Inl e | Inr rem \<Rightarrow> Inr (source_id rem, rem))"

text \<open>
  Modelled from the spec: \<^verbatim>\<open>store.entity_knowledge(path, source=...)\<close> is a method of
  \<^verbatim>\<open>mapknowledge\<close>. The spec has Load, for each path, fetch the knowledge record and
  upsert it, where an upsert is an insert-or-replace of one record of the knowledge table.
\<close>

definition upsert_knowledge :: "json \<Rightarrow> json \<Rightarrow> json \<Rightarrow> tables \<Rightarrow> error + tables" where
  "upsert_knowledge source entity payload t =
     ebind (prepare_insert 3 3) (\<lambda>_.
     ebind (sql_bind source) (\<lambda>s.
     ebind (sql_bind entity) (\<lambda>e.
       Inr (t\<lparr>knowledge :=
                filter (\<lambda>r. \<not> knowledge_conflict s e r) (knowledge t) @ [(s, e, payload)]\<rparr>))))"

definition entity_knowledge :: "remote \<Rightarrow> json \<Rightarrow> json \<Rightarrow> tables \<Rightarrow> error + tables" where
  "entity_knowledge rem knowledge_source path t =
     ebind (fetch_knowledge rem path) (\<lambda>payload.
       upsert_knowledge knowledge_source path payload t)"

text \<open>
  Modelled from the spec: \<^verbatim>\<open>store.close()\<close> is a method of \<^verbatim>\<open>mapknowledge\<close>; the spec
  has Load commit after the full iteration, and line 68 is the only call after the loop.
\<close>

definition close :: "db \<Rightarrow> db" where
  "close d = commit d"

text \<open>Lines 53 and 54.\<close>

definition delete_source :: "json \<Rightarrow> tables \<Rightarrow> error + tables" where
  "delete_source knowledge_source t =
     ebind (delete_knowledge knowledge_source t) (delete_connectivity_nodes knowledge_source)"

text \<open>
  \<open>load\<close> (lines 35 to 68) takes the environment variable \<^verbatim>\<open>SCICRUNCH_API_KEY\<close>, the
  remote and \<^verbatim>\<open>store.db\<close>. Line 55 commits the two deletions before the path list is
  asked for. The call of \<open>extract_json\<close> under \<^verbatim>\<open>--save-json\<close> follows a successful
  load and is a separate operation.
\<close>

definition load ::
  "string option \<Rightarrow> error + remote \<Rightarrow> db option \<Rightarrow> error option \<times> db option" where
  "load scicrunch_key r store_db =
     (case scicrunch_key of
        None \<Rightarrow> (Some SystemExit, store_db)
      | Some key \<Rightarrow>
          (case resolve_source r of
             Inl e \<Rightarrow> (Some e, store_db)
           | Inr (knowledge_source, rem) \<Rightarrow>
               (case store_db of
                  None \<Rightarrow> (Some IOError, None)
                | Some d \<Rightarrow>
                    (case delete_source knowledge_source (pending d) of
                       Inl e \<Rightarrow> (Some e, Some d)
                     | Inr t \<Rightarrow>
                         (let d1 = commit (d\<lparr>pending := t\<rparr>) in
                          case connectivity_paths rem of
                            Inl e \<Rightarrow> (Some e, Some d1)
                          | Inr paths \<Rightarrow>
                              (case for_each (entity_knowledge rem knowledge_source) paths
                                      (pending d1) of
                                 Inl e \<Rightarrow> (Some e, Some d1)
                               | Inr t' \<Rightarrow> (None, Some (close (d1\<lparr>pending := t'\<rparr>)))))))))"

section \<open>Info\<close>

text \<open>
  Modelled from the spec: \<^verbatim>\<open>store.knowledge_sources()\<close> is a method of \<^verbatim>\<open>mapknowledge\<close>;
  the spec has it return the source ids, the most recently written first.
\<close>

definition knowledge_sources :: "tables \<Rightarrow> sqlval list" where
  "knowledge_sources t = rev (remdups (map fst (knowledge t)))"

text \<open>\<open>info\<close> returns the lines it prints; it executes no statement that writes.\<close>

definition info :: "db \<Rightarrow> json list \<times> db" where
  "info d = (map sql_value (knowledge_sources (pending d)), d)"

section \<open>Invariant of the knowledge table\<close>

text \<open>
  The unique index on (source, entity): no two rows agree on both columns. As in SQLite,
  a NULL agrees with nothing.
\<close>

fun knowledge_unique :: "(sqlval \<times> sqlval \<times> json) list \<Rightarrow> bool" where
  "knowledge_unique [] = True"
| "knowledge_unique (r # rs) =
     (\<not> list_ex (knowledge_conflict (fst r) (fst (snd r))) rs \<and> knowledge_unique rs)"

text \<open>The store before any operation has touched it.\<close>

definition empty_tables :: tables where
  "empty_tables = \<lparr>knowledge = [], labels = [], publications = [], connectivity_nodes = []\<rparr>"

section \<open>Notions used to state and prove the properties\<close>

text \<open>The records of a snapshot, as the loop on line 122 takes them.\<close>

definition snapshot_records :: "json \<Rightarrow> error + json list" where
  "snapshot_records snap = ebind (py_getitem snap ''knowledge'') py_iter"

text \<open>The entity column of the row a record is stored in.\<close>

definition record_entity :: "json \<Rightarrow> error + sqlval" where
  "record_entity rec = ebind (py_getitem rec ''id'') sql_bind"

text \<open>
  The member of \<^verbatim>\<open>seen_nodes\<close> a node of an edge is looked up as (lines 138 and 139):
  the hash key of \<^verbatim>\<open>(node[0], tuple(node[1]))\<close>.
\<close>

definition node_key_of :: "json \<Rightarrow> error + node_key" where
  "node_key_of node =
     ebind (py_index node 0) (\<lambda>trm.
     ebind (py_index node 1) (\<lambda>quals.
     ebind (py_iter quals) (\<lambda>qs.
     ebind (py_hash trm) (\<lambda>h.
     ebind (py_hash_all qs) (\<lambda>hs. Inr (h, hs))))))"

text \<open>The nodes of a list of edges, and of all the edges of a record, in the order of the loops.\<close>

definition edge_nodes :: "json list \<Rightarrow> json list" where
  "edge_nodes edges =
     concat (map (\<lambda>edge. case py_iter edge of Inl e \<Rightarrow> [] | Inr nodes \<Rightarrow> nodes) edges)"

definition record_nodes :: "json \<Rightarrow> json list" where
  "record_nodes rec =
     (case ebind (py_getitem rec ''connectivity'') py_iter of
        Inl e \<Rightarrow> []
      | Inr edges \<Rightarrow> edge_nodes edges)"

text \<open>
  The member of \<^verbatim>\<open>seen_nodes\<close> that stands for a stored node: the node column holds
  \<^verbatim>\<open>[term, [qualifier, ...]]\<close>.
\<close>

definition value_key :: "json \<Rightarrow> error + node_key" where
  "value_key v =
     (case v of
        JArr [trm, JArr qs] \<Rightarrow>
          ebind (py_hash trm) (\<lambda>h. ebind (py_hash_all qs) (\<lambda>hs. Inr (h, hs)))
      | _ \<Rightarrow> Inl TypeError)"


text \<open>What \<open>extract_row\<close> makes of a row whose payload is a \<^verbatim>\<open>dict\<close>.\<close>

definition inject_id :: "sqlval \<times> json \<Rightarrow> json" where
  "inject_id row =
     (case snd row of
        JObj kvs \<Rightarrow> JObj (AList.update ''id'' (sql_value (fst row)) kvs)
      | other \<Rightarrow> other)"

text \<open>
  A \<^verbatim>\<open>clean_connectivity\<close> that only deletes: in each table it keeps the rows that pass a
  test of its own, which may depend on the source.
\<close>

definition deletes_rows :: "(json \<Rightarrow> tables \<Rightarrow> tables) \<Rightarrow> bool" where
  "deletes_rows clean_connectivity =
     (\<exists>kk kl kp kc. \<forall>v t. clean_connectivity v t =
        \<lparr>knowledge = filter (kk v) (knowledge t),
         labels = filter (kl v) (labels t),
         publications = filter (kp v) (publications t),
         connectivity_nodes = filter (kc v) (connectivity_nodes t)\<rparr>)"

text \<open>
  A snapshot in which neither the source nor the id of a record is \<^verbatim>\<open>null\<close>. The spec
  gives a snapshot the shape \<^verbatim>\<open>{"source": string, "knowledge": [{..., "id": entity}]}\<close>.
\<close>

definition null_free :: "json \<Rightarrow> bool" where
  "null_free snap =
     (py_getitem snap ''source'' \<noteq> Inr JNull \<and>
      (case snapshot_records snap of
         Inl e \<Rightarrow> True
       | Inr recs \<Rightarrow> list_all (\<lambda>rec. py_getitem rec ''id'' \<noteq> Inr JNull) recs))"

text \<open>
  The tables once lines 119 to 121 have run: what \<^verbatim>\<open>clean_connectivity\<close> left, less the
  knowledge and connectivity node rows of the source.
\<close>

definition cleared ::
  "(json \<Rightarrow> tables \<Rightarrow> tables) \<Rightarrow> json \<Rightarrow> sqlval \<Rightarrow> tables \<Rightarrow> tables" where
  "cleared clean_connectivity ks s t =
     (clean_connectivity ks t)
       \<lparr>knowledge := filter (\<lambda>r. \<not> sql_eq (fst r) s) (knowledge (clean_connectivity ks t)),
        connectivity_nodes :=
          filter (\<lambda>r. \<not> sql_eq (fst r) s) (connectivity_nodes (clean_connectivity ks t))\<rparr>"

text \<open>
  The tables \<open>t\<close> followed by the rows \<open>a\<close> written after them: rows are appended, and a
  label row of \<open>t\<close> gives way to a label row of \<open>a\<close> for the same entity.
\<close>

definition extend_tables :: "tables \<Rightarrow> tables \<Rightarrow> tables" where
  "extend_tables t a =
     \<lparr>knowledge = knowledge t @ knowledge a,
      labels =
        filter (\<lambda>r. \<not> list_ex (\<lambda>r'. sql_eq (fst r) (fst r')) (labels a)) (labels t) @ labels a,
      publications = publications t @ publications a,
      connectivity_nodes = connectivity_nodes t @ connectivity_nodes a\<rparr>"

definition no_rows_of :: "json \<Rightarrow> tables \<Rightarrow> bool" where
  "no_rows_of ks t =
     (\<forall>s. sql_bind ks = Inr s \<longrightarrow> (\<forall>r\<in>set (knowledge t). \<not> sql_eq (fst r) s))"

definition fresh_in :: "json \<Rightarrow> json \<Rightarrow> tables \<Rightarrow> bool" where
  "fresh_in ks rec t =
     (\<forall>ent s e. py_getitem rec ''id'' = Inr ent \<longrightarrow> sql_bind ks = Inr s \<longrightarrow>
        sql_bind ent = Inr e \<longrightarrow> \<not> list_ex (knowledge_conflict s e) (knowledge t))"

text \<open>
  The state of the node loops of one record: the rows written since \<open>t0\<close> belong to the
  source and to the record's entity, have pairwise different keys, and their keys are the
  members of \<^verbatim>\<open>seen_nodes\<close>.
\<close>

definition nodes_added ::
  "sqlval \<Rightarrow> json \<Rightarrow> tables \<Rightarrow> node_key list \<times> tables \<Rightarrow> bool" where
  "nodes_added s ent t0 st =
     (\<exists>rows. snd st = t0\<lparr>connectivity_nodes := connectivity_nodes t0 @ rows\<rparr> \<and>
        (\<forall>r\<in>set rows. fst r = s \<and> sql_bind ent = Inr (snd (snd r))) \<and>
        distinct (map (\<lambda>r. value_key (fst (snd r))) rows) \<and>
        (\<lambda>r. value_key (fst (snd r))) ` set rows = Inr ` set (fst st))"

section \<open>Concrete stores and snapshots\<close>

text \<open>The snapshot of the scenario in the spec: one path with a label, one reference and one edge.\<close>

definition scenario_snapshot :: json where
  "scenario_snapshot =
     JObj [(''source'', JStr ''npo-2023''),
           (''knowledge'', JArr [
              JObj [(''id'', JStr ''path:1''),
                    (''label'', JStr ''Vagal pathway''),
                    (''references'', JArr [JStr ''PMID:123'']),
                    (''connectivity'', JArr [JArr [JArr [JStr ''UBERON:1'', JArr []],
                                                   JArr [JStr ''UBERON:2'', JArr []]]])]])]"

text \<open>A store that holds one path of the source \<^verbatim>\<open>npo-2023\<close>, with a publication.\<close>

definition one_path_store :: tables where
  "one_path_store =
     \<lparr>knowledge = [(SText ''npo-2023'', SText ''path:1'', JObj [(''label'', JStr ''Vagal pathway'')])],
      labels = [(SText ''path:1'', SText ''Vagal pathway'')],
      publications = [(SText ''npo-2023'', SText ''path:1'', SText ''PMID:123'')],
      connectivity_nodes = []\<rparr>"

text \<open>A snapshot whose second record has a number where the list of edges should be.\<close>

definition malformed_snapshot :: json where
  "malformed_snapshot =
     JObj [(''source'', JStr ''npo-2023''),
           (''knowledge'', JArr [
              JObj [(''id'', JStr ''path:2'')],
              JObj [(''id'', JStr ''path:3''), (''connectivity'', JInt 5)]])]"

text \<open>A snapshot with two records of the same id.\<close>

definition duplicate_snapshot :: json where
  "duplicate_snapshot =
     JObj [(''source'', JStr ''npo-2023''),
           (''knowledge'', JArr [JObj [(''id'', JStr ''path:2'')], JObj [(''id'', JStr ''path:2'')]])]"

text \<open>A \<^verbatim>\<open>clean_connectivity\<close> that deletes nothing.\<close>

definition clean_nothing :: "json \<Rightarrow> tables \<Rightarrow> tables" where
  "clean_nothing knowledge_source t = t"

text \<open>
  Two paths without references. The node \<^verbatim>\<open>["UBERON:0001", ["qualifierA"]]\<close> is in three
  edges: two of the first path, one of the second.
\<close>

definition node_a :: json where
  "node_a = JArr [JStr ''UBERON:0001'', JArr [JStr ''qualifierA'']]"

definition node_b :: json where
  "node_b = JArr [JStr ''UBERON:0002'', JArr []]"

definition node_c :: json where
  "node_c = JArr [JStr ''UBERON:0003'', JArr []]"

definition two_path_record_1 :: json where
  "two_path_record_1 =
     JObj [(''id'', JStr ''path:1''),
           (''label'', JStr ''Vagal pathway''),
           (''connectivity'', JArr [JArr [node_a, node_b], JArr [node_a, node_c]])]"

definition two_path_record_2 :: json where
  "two_path_record_2 =
     JObj [(''id'', JStr ''path:2''), (''connectivity'', JArr [JArr [node_a, node_b]])]"

definition two_path_snapshot :: json where
  "two_path_snapshot =
     JObj [(''source'', JStr ''npo-2023''),
           (''knowledge'', JArr [two_path_record_1, two_path_record_2])]"

text \<open>What restoring \<open>two_path_snapshot\<close> makes of \<open>one_path_store\<close>.\<close>

definition two_path_store :: tables where
  "two_path_store =
     \<lparr>knowledge = [(SText ''npo-2023'', SText ''path:1'', two_path_record_1),
                   (SText ''npo-2023'', SText ''path:2'', two_path_record_2)],
      labels = [(SText ''path:1'', SText ''Vagal pathway'')],
      publications = [(SText ''npo-2023'', SText ''path:1'', SText ''PMID:123'')],
      connectivity_nodes =
        [(SText ''npo-2023'', node_a, SText ''path:1''),
         (SText ''npo-2023'', node_b, SText ''path:1''),
         (SText ''npo-2023'', node_c, SText ''path:1''),
         (SText ''npo-2023'', node_a, SText ''path:2''),
         (SText ''npo-2023'', node_b, SText ''path:2'')]\<rparr>"

text \<open>A remote that lists one path and cannot be reached when the path is fetched.\<close>

definition no_knowledge :: "json \<Rightarrow> error + json" where
  "no_knowledge path = Inl RemoteUnavailableError"

definition failing_remote :: remote where
  "failing_remote =
     \<lparr>source_id = JStr ''npo-2023'',
      connectivity_paths = Inr [JStr ''path:1''],
      fetch_knowledge = no_knowledge\<rparr>"

text \<open>A remote with one path, whose record has a label and no \<^verbatim>\<open>id\<close> field.\<close>

definition label_only :: "json \<Rightarrow> error + json" where
  "label_only path = Inr (JObj [(''label'', JStr ''Vagal pathway'')])"

definition labelled_remote :: remote where
  "labelled_remote =
     \<lparr>source_id = JStr ''npo-2023'',
      connectivity_paths = Inr [JStr ''path:1''],
      fetch_knowledge = label_only\<rparr>"

definition loaded_store :: tables where
  "loaded_store =
     \<lparr>knowledge = [(SText ''npo-2023'', SText ''path:1'', JObj [(''label'', JStr ''Vagal pathway'')])],
      labels = [], publications = [], connectivity_nodes = []\<rparr>"

definition extracted_snapshot :: json where
  "extracted_snapshot =
     JObj [(''source'', JStr ''npo-2023''),
           (''knowledge'', JArr [JObj [(''label'', JStr ''Vagal pathway''), (''id'', JStr ''path:1'')]])]"

definition round_trip_store :: tables where
  "round_trip_store =
     \<lparr>knowledge = [(SText ''npo-2023'', SText ''path:1'',
                    JObj [(''label'', JStr ''Vagal pathway''), (''id'', JStr ''path:1'')])],
      labels = [(SText ''path:1'', SText ''Vagal pathway'')],
      publications = [], connectivity_nodes = []\<rparr>"

text \<open>
  A store with two paths of the source, the second of which was inserted first, what
  Extract makes of it when the query answers in entity order, and what restoring that
  snapshot makes of an empty store.
\<close>

definition two_row_store :: tables where
  "two_row_store =
     \<lparr>knowledge = [(SText ''npo-2023'', SText ''path:2'', JObj [(''label'', JStr ''Second'')]),
                   (SText ''npo-2023'', SText ''path:1'', JObj [(''label'', JStr ''First'')])],
      labels = [], publications = [], connectivity_nodes = []\<rparr>"

definition two_row_snapshot :: json where
  "two_row_snapshot =
     JObj [(''source'', JStr ''npo-2023''),
           (''knowledge'', JArr [JObj [(''label'', JStr ''First''), (''id'', JStr ''path:1'')],
                                 JObj [(''label'', JStr ''Second''), (''id'', JStr ''path:2'')]])]"

definition two_row_restored :: tables where
  "two_row_restored =
     \<lparr>knowledge = [(SText ''npo-2023'', SText ''path:1'',
                    JObj [(''label'', JStr ''First''), (''id'', JStr ''path:1'')]),
                   (SText ''npo-2023'', SText ''path:2'',
                    JObj [(''label'', JStr ''Second''), (''id'', JStr ''path:2'')])],
      labels = [(SText ''path:1'', SText ''First''), (SText ''path:2'', SText ''Second'')],
      publications = [], connectivity_nodes = []\<rparr>"

text \<open>A snapshot whose record for \<^verbatim>\<open>path:1\<close> gives a new set of references.\<close>

definition references_snapshot :: json where
  "references_snapshot =
     JObj [(''source'', JStr ''npo-2023''),
           (''knowledge'', JArr [
              JObj [(''id'', JStr ''path:1''), (''references'', JArr [JStr ''PMID:456''])]])]"

section \<open>Basic facts\<close>

lemma ebind_simps [simp]: "ebind (Inl e) k = Inl e" "ebind (Inr v) k = k v"
  by (simp_all add: ebind_def)

lemma connect_sel [simp]: "committed (connect t) = t" "pending (connect t) = t"
  by (simp_all add: connect_def)

lemma ebind_eq_Inr: "ebind r k = Inr y \<longleftrightarrow> (\<exists>v. r = Inr v \<and> k v = Inr y)"
  by (cases r) simp_all

lemmas restore_unfold =
  restore_def restore_statements_def py_getitem_def delete_knowledge_def sql_bind_def
  delete_connectivity_nodes_def py_iter_def restore_record_def insert_knowledge_def
  prepare_insert_def list_ex_iff knowledge_conflict_def sql_eq_def py_has_key_def
  replace_label_def restore_references_def delete_publications_def py_get_def
  insert_publications_def connect_def commit_def restore_connectivity_def restore_edge_def
  restore_node_def py_index_def py_hash_def insert_connectivity_node_def persisted_def

text \<open>A property kept by every iteration that does not raise holds when the loop ends.\<close>

lemma for_each_invariant:
  assumes "for_each body xs s = Inr s'" and "P s"
    and "\<And>x u u'. x \<in> set xs \<Longrightarrow> P u \<Longrightarrow> body x u = Inr u' \<Longrightarrow> P u'"
  shows "P s'"
  using assms
proof (induction xs arbitrary: s)
  case Nil
  then show ?case by simp
next
  case (Cons x xs)
  from Cons.prems(1) obtain u where u: "body x s = Inr u" and rest: "for_each body xs u = Inr s'"
    by (auto simp: ebind_eq_Inr)
  have "P u" using Cons.prems(3) [of x s u] Cons.prems(2) u by simp
  show ?case
    by (rule Cons.IH [OF rest \<open>P u\<close>]) (rule Cons.prems(3), simp_all)
qed

lemma filter_none: "(\<And>x. x \<in> set xs \<Longrightarrow> \<not> P x) \<Longrightarrow> filter P xs = []"
  by (induction xs) auto

lemma sql_bind_not_null: "sql_bind v = Inr SNull \<Longrightarrow> v = JNull"
  by (cases v) (auto simp: sql_bind_def split: if_splits)

lemma sql_bind_value: "sql_bind (sql_value c) = Inr c' \<Longrightarrow> c' = c"
  by (cases c) (auto simp: sql_value_def sql_bind_def split: if_splits)

section \<open>Rows written after the rows of a store\<close>

text \<open>
  The statements of a restore, run on tables \<open>t\<close> followed by rows \<open>a\<close>, do to \<open>a\<close> what
  they do when \<open>t\<close> is absent, as long as the unique index finds no conflict in \<open>t\<close>.
\<close>

lemma extend_tables_empty [simp]: "extend_tables t empty_tables = t"
  by (simp add: extend_tables_def empty_tables_def)

lemma extend_tables_sel [simp]:
  "knowledge (extend_tables t a) = knowledge t @ knowledge a"
  "publications (extend_tables t a) = publications t @ publications a"
  "connectivity_nodes (extend_tables t a) = connectivity_nodes t @ connectivity_nodes a"
  by (simp_all add: extend_tables_def)

lemma insert_connectivity_node_frame:
  "insert_connectivity_node ks node ent (extend_tables t a) = map_sum id (extend_tables t) (insert_connectivity_node ks node ent a)"
  by (cases "sql_bind ks"; cases "sql_bind ent") (simp_all add: insert_connectivity_node_def prepare_insert_def extend_tables_def)

lemma restore_node_frame:
  "restore_node ks ent node (seen, extend_tables t a) = map_sum id (\<lambda>st. (fst st, extend_tables t (snd st))) (restore_node ks ent node (seen, a))"
  unfolding restore_node_def
  apply (cases "py_index node 0"; simp)
  apply (cases "py_index node 1"; simp)
  subgoal for trm quals
    apply (cases "py_iter quals"; simp)
    subgoal for qs
      apply (cases "py_hash trm"; simp)
      apply (cases "py_hash_all qs"; simp)
      subgoal for h hs
        by (cases "insert_connectivity_node ks (JArr [trm, JArr qs]) ent a") (simp_all add: insert_connectivity_node_frame)
      done
    done
  done

lemma for_each_nodes_frame:
  "for_each (restore_node ks ent) nodes (seen, extend_tables t a) = map_sum id (\<lambda>st. (fst st, extend_tables t (snd st))) (for_each (restore_node ks ent) nodes (seen, a))"
proof (induction nodes arbitrary: seen a)
  case Nil
  show ?case by simp
next
  case (Cons n ns)
  show ?case
  proof (cases "restore_node ks ent n (seen, a)")
    case (Inl e)
    then show ?thesis by (simp add: restore_node_frame)
  next
    case (Inr st)
    then show ?thesis using Cons.IH [of "fst st" "snd st"] by (simp add: restore_node_frame)
  qed
qed

lemma restore_edge_frame:
  "restore_edge ks ent edge (seen, extend_tables t a) = map_sum id (\<lambda>st. (fst st, extend_tables t (snd st))) (restore_edge ks ent edge (seen, a))"
  by (cases "py_iter edge") (simp_all add: restore_edge_def for_each_nodes_frame)

lemma for_each_edges_frame:
  "for_each (restore_edge ks ent) edges (seen, extend_tables t a) = map_sum id (\<lambda>st. (fst st, extend_tables t (snd st))) (for_each (restore_edge ks ent) edges (seen, a))"
proof (induction edges arbitrary: seen a)
  case Nil
  show ?case by simp
next
  case (Cons n ns)
  show ?case
  proof (cases "restore_edge ks ent n (seen, a)")
    case (Inl e)
    then show ?thesis by (simp add: restore_edge_frame)
  next
    case (Inr st)
    then show ?thesis using Cons.IH [of "fst st" "snd st"] by (simp add: restore_edge_frame)
  qed
qed

lemma restore_connectivity_frame:
  "restore_connectivity ks ent conn (extend_tables t a) = map_sum id (extend_tables t) (restore_connectivity ks ent conn a)"
proof (cases "py_iter conn")
  case (Inl e)
  then show ?thesis by (simp add: restore_connectivity_def)
next
  case (Inr edges)
  then show ?thesis
    by (cases "for_each (restore_edge ks ent) edges ([], a)")
       (simp_all add: restore_connectivity_def for_each_edges_frame)
qed

lemma replace_label_frame:
  "replace_label ent label (extend_tables t a) = map_sum id (extend_tables t) (replace_label ent label a)"
  by (cases "sql_bind ent"; cases "sql_bind label")
     (auto simp: replace_label_def prepare_insert_def extend_tables_def list_ex_iff sql_eq_def intro!: filter_cong)

lemma no_rows_of_fresh: "no_rows_of ks t \<Longrightarrow> fresh_in ks rec t"
  by (auto simp: no_rows_of_def fresh_in_def list_ex_iff knowledge_conflict_def)

lemma insert_knowledge_frame:
  "py_getitem rec ''id'' = Inr ent \<Longrightarrow> fresh_in ks rec t \<Longrightarrow>
   insert_knowledge ks ent p (extend_tables t a) = map_sum id (extend_tables t) (insert_knowledge ks ent p a)"
  by (cases "sql_bind ks"; cases "sql_bind ent")
     (auto simp: insert_knowledge_def prepare_insert_def extend_tables_def list_ex_iff fresh_in_def)

text \<open>
  A record with a \<^verbatim>\<open>references\<close> field never gets past line 132: the insert has three
  columns and two values.
\<close>

lemma restore_references_fails:
  "restore_references ks ent refs t =
     (case sql_bind ks of Inl e \<Rightarrow> Inl e | Inr s \<Rightarrow>
       (case sql_bind ent of Inl e \<Rightarrow> Inl e | Inr x \<Rightarrow>
         (case py_iter refs of Inl e \<Rightarrow> Inl e | Inr rs \<Rightarrow> Inl OperationalError)))"
  by (simp add: restore_references_def delete_publications_def insert_publications_def prepare_insert_def
        split: sum.splits)

lemma restore_record_frame:
  assumes "fresh_in ks rec t"
  shows "restore_record ks rec (extend_tables t a) = map_sum id (extend_tables t) (restore_record ks rec a)"
proof (cases "py_getitem rec ''id''")
  case (Inl e)
  then show ?thesis by (simp add: restore_record_def)
next
  case ent: (Inr ent)
  show ?thesis
  proof (cases "insert_knowledge ks ent rec a")
    case (Inl e)
    then show ?thesis using ent assms by (simp add: restore_record_def insert_knowledge_frame [OF ent])
  next
    case a1: (Inr a1)
    define lab where "lab u = (if py_has_key rec ''label''
            then ebind (py_getitem rec ''label'') (\<lambda>label. replace_label ent label u)
            else Inr u)" for u
    have lab_frame: "lab (extend_tables t u) = map_sum id (extend_tables t) (lab u)" for u
      by (cases "py_getitem rec ''label''") (simp_all add: lab_def replace_label_frame)
    show ?thesis
    proof (cases "lab a1")
      case (Inl e)
      then show ?thesis using ent assms a1 lab_frame [of a1]
        by (simp add: restore_record_def insert_knowledge_frame [OF ent] lab_def)
    next
      case a2: (Inr a2)
      show ?thesis
      proof (cases "py_has_key rec ''references''")
        case True
        then show ?thesis using ent assms a1 a2 lab_frame [of a1]
          by (simp add: restore_record_def insert_knowledge_frame [OF ent] lab_def restore_references_fails split: sum.splits)
      next
        case False
        then show ?thesis using ent assms a1 a2 lab_frame [of a1]
          by (cases "py_getitem rec ''connectivity''")
             (simp_all add: restore_record_def insert_knowledge_frame [OF ent] lab_def restore_connectivity_frame)
      qed
    qed
  qed
qed

lemma for_each_records_frame:
  assumes "no_rows_of ks t"
  shows "for_each (restore_record ks) recs (extend_tables t a) = map_sum id (extend_tables t) (for_each (restore_record ks) recs a)"
proof (induction recs arbitrary: a)
  case Nil
  show ?case by simp
next
  case (Cons r rs)
  show ?case
    using Cons.IH assms by (cases "restore_record ks r a") (simp_all add: restore_record_frame no_rows_of_fresh)
qed

section \<open>What a record writes\<close>

lemma restore_node_added:
  assumes "restore_node ks ent node st = Inr st'" and "sql_bind ks = Inr s" and "nodes_added s ent t0 st"
  shows "nodes_added s ent t0 st'"
proof -
  from assms(1) obtain trm quals qs h hs where
    parts: "py_index node 0 = Inr trm" "py_index node 1 = Inr quals" "py_iter quals = Inr qs"
      "py_hash trm = Inr h" "py_hash_all qs = Inr hs"
    and step: "(if (h, hs) \<in> set (fst st) then Inr st
       else ebind (insert_connectivity_node ks (JArr [trm, JArr qs]) ent (snd st))
           (\<lambda>t. Inr ((h, hs) # fst st, t))) = Inr st'"
    unfolding restore_node_def by (auto simp: ebind_eq_Inr)
  show ?thesis
  proof (cases "(h, hs) \<in> set (fst st)")
    case True
    with step assms(3) show ?thesis by simp
  next
    case False
    with step obtain e where e: "sql_bind ent = Inr e"
      and st': "st' = ((h, hs) # fst st, (snd st)\<lparr>connectivity_nodes := connectivity_nodes (snd st) @ [(s, JArr [trm, JArr qs], e)]\<rparr>)"
      using assms(2) by (auto simp: ebind_eq_Inr insert_connectivity_node_def prepare_insert_def)
    from assms(3) obtain rows where rows: "snd st = t0\<lparr>connectivity_nodes := connectivity_nodes t0 @ rows\<rparr>"
      "\<forall>r\<in>set rows. fst r = s \<and> sql_bind ent = Inr (snd (snd r))"
      "distinct (map (\<lambda>r. value_key (fst (snd r))) rows)"
      "(\<lambda>r. value_key (fst (snd r))) ` set rows = Inr ` set (fst st)"
      unfolding nodes_added_def by blast
    have key: "value_key (JArr [trm, JArr qs]) = Inr (h, hs)"
      using parts by (simp add: value_key_def)
    have fresh: "Inr (h, hs) \<notin> (\<lambda>r. value_key (fst (snd r))) ` set rows"
      unfolding rows(4) using False by (simp add: image_iff)
    let ?rows = "rows @ [(s, JArr [trm, JArr qs], e)]"
    have tables: "snd st' = t0\<lparr>connectivity_nodes := connectivity_nodes t0 @ ?rows\<rparr>"
      using rows(1) st' by simp
    have own: "\<forall>r\<in>set ?rows. fst r = s \<and> sql_bind ent = Inr (snd (snd r))"
      using rows(2) e by simp
    have dist: "distinct (map (\<lambda>r. value_key (fst (snd r))) ?rows)"
      using rows(3) key fresh by simp
    have keys: "(\<lambda>r. value_key (fst (snd r))) ` set ?rows = Inr ` set (fst st')"
      using key st' by (simp add: rows(4))
    from tables own dist keys show ?thesis
      unfolding nodes_added_def by (intro exI [of _ ?rows] conjI)
  qed
qed

lemma restore_edge_added:
  assumes "restore_edge ks ent edge st = Inr st'" and "sql_bind ks = Inr s" and "nodes_added s ent t0 st"
  shows "nodes_added s ent t0 st'"
proof -
  from assms(1) obtain nodes where run: "for_each (restore_node ks ent) nodes st = Inr st'"
    by (auto simp: restore_edge_def ebind_eq_Inr)
  show ?thesis
    by (rule for_each_invariant [where P = "nodes_added s ent t0", OF run assms(3)])
       (rule restore_node_added [OF _ assms(2)])
qed

lemma restore_node_seen:
  assumes "restore_node ks ent node st = Inr st'"
  shows "Inr ` set (fst st') = insert (node_key_of node) (Inr ` set (fst st))"
proof -
  from assms obtain trm quals qs h hs where
    parts: "py_index node 0 = Inr trm" "py_index node 1 = Inr quals" "py_iter quals = Inr qs"
      "py_hash trm = Inr h" "py_hash_all qs = Inr hs"
    and step: "(if (h, hs) \<in> set (fst st) then Inr st
       else ebind (insert_connectivity_node ks (JArr [trm, JArr qs]) ent (snd st))
           (\<lambda>t. Inr ((h, hs) # fst st, t))) = Inr st'"
    unfolding restore_node_def by (auto simp: ebind_eq_Inr)
  have key: "node_key_of node = Inr (h, hs)"
    using parts by (simp add: node_key_of_def)
  show ?thesis
  proof (cases "(h, hs) \<in> set (fst st)")
    case True
    with step have same: "st' = st" by simp
    have "Inr (h, hs) \<in> (Inr ` set (fst st) :: (error + node_key) set)"
      using True by simp
    then show ?thesis
      unfolding same key by (simp only: insert_absorb)
  next
    case False
    with step obtain t where "st' = ((h, hs) # fst st, t)"
      by (auto simp: ebind_eq_Inr)
    with key show ?thesis by simp
  qed
qed

lemma for_each_nodes_seen:
  assumes "for_each (restore_node ks ent) nodes st = Inr st'"
  shows "Inr ` set (fst st') = Inr ` set (fst st) \<union> node_key_of ` set nodes"
  using assms
proof (induction nodes arbitrary: st)
  case Nil
  then show ?case by simp
next
  case (Cons n ns)
  then obtain u where u: "restore_node ks ent n st = Inr u"
    and rest: "for_each (restore_node ks ent) ns u = Inr st'"
    by (auto simp: ebind_eq_Inr)
  show ?case
    unfolding Cons.IH [OF rest] restore_node_seen [OF u] by simp
qed

lemma for_each_edges_seen:
  assumes "for_each (restore_edge ks ent) edges st = Inr st'"
  shows "Inr ` set (fst st') = Inr ` set (fst st) \<union> node_key_of ` set (edge_nodes edges)"
  using assms
proof (induction edges arbitrary: st)
  case Nil
  then show ?case by (simp add: edge_nodes_def)
next
  case (Cons edge edges)
  then obtain u where u: "restore_edge ks ent edge st = Inr u"
    and rest: "for_each (restore_edge ks ent) edges u = Inr st'"
    by (auto simp: ebind_eq_Inr)
  from u obtain nodes where nodes: "py_iter edge = Inr nodes"
    and run: "for_each (restore_node ks ent) nodes st = Inr u"
    by (auto simp: restore_edge_def ebind_eq_Inr)
  have split: "edge_nodes (edge # edges) = nodes @ edge_nodes edges"
    using nodes by (simp add: edge_nodes_def)
  show ?case
    unfolding split Cons.IH [OF rest] for_each_nodes_seen [OF run]
    by (simp add: image_Un Un_assoc)
qed

lemma restore_connectivity_added:
  assumes "restore_connectivity ks ent conn t = Inr t'" and "sql_bind ks = Inr s"
  shows "\<exists>rows edges. t' = t\<lparr>connectivity_nodes := connectivity_nodes t @ rows\<rparr> \<and>
        (\<forall>r\<in>set rows. fst r = s \<and> sql_bind ent = Inr (snd (snd r))) \<and>
        distinct (map (\<lambda>r. value_key (fst (snd r))) rows) \<and>
        py_iter conn = Inr edges \<and>
        (\<lambda>r. value_key (fst (snd r))) ` set rows = node_key_of ` set (edge_nodes edges)"
proof -
  from assms(1) obtain edges st where edges: "py_iter conn = Inr edges"
    and run: "for_each (restore_edge ks ent) edges ([], t) = Inr st"
    and t': "t' = snd st"
    by (auto simp: restore_connectivity_def ebind_eq_Inr)
  from for_each_edges_seen [OF run]
  have seen: "Inr ` set (fst st) = node_key_of ` set (edge_nodes edges)" by simp
  have start: "nodes_added s ent t ([], t)"
    unfolding nodes_added_def by (rule exI [of _ "[]"]) simp
  have "nodes_added s ent t st"
    by (rule for_each_invariant [where P = "nodes_added s ent t", OF run start])
       (rule restore_edge_added [OF _ assms(2)])
  then obtain rows where rows: "snd st = t\<lparr>connectivity_nodes := connectivity_nodes t @ rows\<rparr>"
    "\<forall>r\<in>set rows. fst r = s \<and> sql_bind ent = Inr (snd (snd r))"
    "distinct (map (\<lambda>r. value_key (fst (snd r))) rows)"
    "(\<lambda>r. value_key (fst (snd r))) ` set rows = Inr ` set (fst st)"
    unfolding nodes_added_def by blast
  have keys: "(\<lambda>r. value_key (fst (snd r))) ` set rows = node_key_of ` set (edge_nodes edges)"
    unfolding rows(4) by (rule seen)
  from rows(1) t' have "t' = t\<lparr>connectivity_nodes := connectivity_nodes t @ rows\<rparr>" by simp
  with rows(2,3) edges keys show ?thesis
    by (intro exI [of _ rows] exI [of _ edges] conjI)
qed

lemma restore_record_nodes:
  assumes "restore_record ks rec t = Inr t'" and "sql_bind ks = Inr s"
  shows "\<exists>e rows. record_entity rec = Inr e \<and> \<not> py_has_key rec ''references'' \<and>
           \<not> list_ex (knowledge_conflict s e) (knowledge t) \<and>
           knowledge t' = knowledge t @ [(s, e, rec)] \<and>
           publications t' = publications t \<and>
           connectivity_nodes t' = connectivity_nodes t @ rows \<and>
           (\<forall>r\<in>set rows. fst r = s \<and> snd (snd r) = e) \<and>
           distinct (map (\<lambda>r. value_key (fst (snd r))) rows) \<and>
           (\<lambda>r. value_key (fst (snd r))) ` set rows = node_key_of ` set (record_nodes rec) \<and>
           (\<forall>r\<in>set (labels t'). r \<in> set (labels t) \<or> fst r = e)"
proof -
  from assms(1) obtain ent t1 t2 t3 where
    ent: "py_getitem rec ''id'' = Inr ent"
    and t1: "insert_knowledge ks ent rec t = Inr t1"
    and t2: "(if py_has_key rec ''label''
            then ebind (py_getitem rec ''label'') (\<lambda>label. replace_label ent label t1)
            else Inr t1) = Inr t2"
    and t3: "(if py_has_key rec ''references''
            then restore_references ks ent (py_get rec ''references'' (JArr [])) t2
            else Inr t2) = Inr t3"
    and t': "(if py_has_key rec ''connectivity''
       then ebind (py_getitem rec ''connectivity'') (\<lambda>connectivity.
              restore_connectivity ks ent connectivity t3)
       else Inr t3) = Inr t'"
    unfolding restore_record_def by (auto simp: ebind_eq_Inr)
  from t1 assms(2) obtain e where e: "sql_bind ent = Inr e"
    and noc: "\<not> list_ex (knowledge_conflict s e) (knowledge t)"
    and t1_eq: "t1 = t\<lparr>knowledge := knowledge t @ [(s, e, rec)]\<rparr>"
    by (auto simp: insert_knowledge_def prepare_insert_def ebind_eq_Inr split: if_splits)
  have norefs: "\<not> py_has_key rec ''references''" and t3_eq: "t3 = t2"
    using t3 by (auto simp: restore_references_fails split: if_splits sum.splits)
  have t2_eq: "knowledge t2 = knowledge t1 \<and> publications t2 = publications t1 \<and>
      connectivity_nodes t2 = connectivity_nodes t1 \<and>
      (\<forall>r\<in>set (labels t2). r \<in> set (labels t1) \<or> fst r = e)"
    using t2 e by (auto simp: replace_label_def prepare_insert_def ebind_eq_Inr split: if_splits)
  have "\<exists>rows. t' = t3\<lparr>connectivity_nodes := connectivity_nodes t3 @ rows\<rparr> \<and>
        (\<forall>r\<in>set rows. fst r = s \<and> sql_bind ent = Inr (snd (snd r))) \<and>
        distinct (map (\<lambda>r. value_key (fst (snd r))) rows) \<and>
        (\<lambda>r. value_key (fst (snd r))) ` set rows = node_key_of ` set (record_nodes rec)"
  proof (cases "py_has_key rec ''connectivity''")
    case True
    with t' obtain c where c: "py_getitem rec ''connectivity'' = Inr c"
      and run: "restore_connectivity ks ent c t3 = Inr t'"
      by (auto simp: ebind_eq_Inr)
    from restore_connectivity_added [OF run assms(2)] obtain rows edges where
      "t' = t3\<lparr>connectivity_nodes := connectivity_nodes t3 @ rows\<rparr>"
      "\<forall>r\<in>set rows. fst r = s \<and> sql_bind ent = Inr (snd (snd r))"
      "distinct (map (\<lambda>r. value_key (fst (snd r))) rows)"
      "py_iter c = Inr edges"
      "(\<lambda>r. value_key (fst (snd r))) ` set rows = node_key_of ` set (edge_nodes edges)"
      by blast
    moreover from this c have "record_nodes rec = edge_nodes edges"
      by (simp add: record_nodes_def)
    ultimately show ?thesis by (intro exI [of _ rows]) simp
  next
    case False
    then have "record_nodes rec = []"
      by (cases rec) (auto simp: record_nodes_def py_has_key_def py_getitem_def)
    moreover from False t' have "t' = t3" by simp
    ultimately show ?thesis by (intro exI [of _ "[]"]) simp
  qed
  then obtain rows where rows: "t' = t3\<lparr>connectivity_nodes := connectivity_nodes t3 @ rows\<rparr>"
    "\<forall>r\<in>set rows. fst r = s \<and> sql_bind ent = Inr (snd (snd r))"
    "distinct (map (\<lambda>r. value_key (fst (snd r))) rows)"
    "(\<lambda>r. value_key (fst (snd r))) ` set rows = node_key_of ` set (record_nodes rec)"
    by blast
  have paths: "\<forall>r\<in>set rows. fst r = s \<and> snd (snd r) = e"
    using rows(2) e by auto
  have "record_entity rec = Inr e" using ent e by (simp add: record_entity_def)
  then show ?thesis
    using norefs noc t1_eq t2_eq t3_eq rows(1,3,4) paths
    by (intro exI [of _ e] exI [of _ rows]) simp
qed

lemma restore_record_effect:
  assumes "restore_record ks rec t = Inr t'" and "sql_bind ks = Inr s"
  shows "\<exists>e rows. record_entity rec = Inr e \<and> \<not> py_has_key rec ''references'' \<and>
           \<not> list_ex (knowledge_conflict s e) (knowledge t) \<and>
           knowledge t' = knowledge t @ [(s, e, rec)] \<and>
           publications t' = publications t \<and>
           connectivity_nodes t' = connectivity_nodes t @ rows \<and>
           (\<forall>r\<in>set rows. fst r = s \<and> snd (snd r) = e) \<and>
           distinct (map (\<lambda>r. value_key (fst (snd r))) rows) \<and>
           (\<forall>r\<in>set (labels t'). r \<in> set (labels t) \<or> fst r = e)"
proof -
  from restore_record_nodes [OF assms] obtain e rows where
    "record_entity rec = Inr e" "\<not> py_has_key rec ''references''"
    "\<not> list_ex (knowledge_conflict s e) (knowledge t)"
    "knowledge t' = knowledge t @ [(s, e, rec)]"
    "publications t' = publications t"
    "connectivity_nodes t' = connectivity_nodes t @ rows"
    "\<forall>r\<in>set rows. fst r = s \<and> snd (snd r) = e"
    "distinct (map (\<lambda>r. value_key (fst (snd r))) rows)"
    "\<forall>r\<in>set (labels t'). r \<in> set (labels t) \<or> fst r = e"
    by blast
  then show ?thesis by (intro exI [of _ e] exI [of _ rows] conjI)
qed

lemma for_each_records_effect:
  assumes "for_each (restore_record ks) recs t = Inr t'" and "sql_bind ks = Inr s"
  shows "\<exists>rows. knowledge t' = knowledge t @ rows \<and> map (\<lambda>r. snd (snd r)) rows = recs \<and>
           (\<forall>r\<in>set rows. fst r = s \<and> record_entity (snd (snd r)) = Inr (fst (snd r)))"
    and "publications t' = publications t"
    and "\<forall>r\<in>set (connectivity_nodes t'). r \<in> set (connectivity_nodes t) \<or> fst r = s"
    and "\<forall>r\<in>set (labels t'). r \<in> set (labels t) \<or> (\<exists>rec\<in>set recs. record_entity rec = Inr (fst r))"
    and "\<forall>rec\<in>set recs. \<not> py_has_key rec ''references''"
  using assms(1)
proof (induction recs arbitrary: t)
  case Nil
  { case 1 then show ?case by simp }
  { case 2 then show ?case by simp }
  { case 3 then show ?case by simp }
  { case 4 then show ?case by simp }
  { case 5 then show ?case by simp }
next
  case (Cons rec recs)
  { case 1
    then obtain u where u: "restore_record ks rec t = Inr u" and rest: "for_each (restore_record ks) recs u = Inr t'"
      by (auto simp: ebind_eq_Inr)
    from restore_record_effect [OF u assms(2)] obtain e where
      e: "record_entity rec = Inr e" "knowledge u = knowledge t @ [(s, e, rec)]" by blast
    from Cons.IH(1) [OF rest] obtain rows where rows: "knowledge t' = knowledge u @ rows"
      "map (\<lambda>r. snd (snd r)) rows = recs"
      "\<forall>r\<in>set rows. fst r = s \<and> record_entity (snd (snd r)) = Inr (fst (snd r))" by blast
    show ?case
      using e rows by (intro exI [of _ "(s, e, rec) # rows"]) simp }
  { case 2
    then obtain u where u: "restore_record ks rec t = Inr u" and rest: "for_each (restore_record ks) recs u = Inr t'"
      by (auto simp: ebind_eq_Inr)
    from restore_record_effect [OF u assms(2)] Cons.IH(2) [OF rest] show ?case by auto }
  { case 3
    then obtain u where u: "restore_record ks rec t = Inr u" and rest: "for_each (restore_record ks) recs u = Inr t'"
      by (auto simp: ebind_eq_Inr)
    from restore_record_effect [OF u assms(2)] obtain rows where
      "connectivity_nodes u = connectivity_nodes t @ rows" "\<forall>r\<in>set rows. fst r = s" by blast
    with Cons.IH(3) [OF rest] show ?case by fastforce }
  { case 4
    then obtain u where u: "restore_record ks rec t = Inr u" and rest: "for_each (restore_record ks) recs u = Inr t'"
      by (auto simp: ebind_eq_Inr)
    from restore_record_effect [OF u assms(2)] obtain e where
      e: "record_entity rec = Inr e" "\<forall>r\<in>set (labels u). r \<in> set (labels t) \<or> fst r = e" by blast
    with Cons.IH(4) [OF rest] show ?case by fastforce }
  { case 5
    then obtain u where u: "restore_record ks rec t = Inr u" and rest: "for_each (restore_record ks) recs u = Inr t'"
      by (auto simp: ebind_eq_Inr)
    from restore_record_effect [OF u assms(2)] Cons.IH(5) [OF rest] show ?case by auto }
qed

section \<open>What a restore writes\<close>

lemma no_rows_of_cleared: "sql_bind ks = Inr s \<Longrightarrow> no_rows_of ks (cleared cc ks s t)"
  by (simp add: no_rows_of_def cleared_def)

lemma restore_statements_eq:
  assumes "py_getitem snap ''source'' = Inr ks" and "sql_bind ks = Inr s"
    and "snapshot_records snap = Inr recs"
  shows "restore_statements cc snap t =
           map_sum id (extend_tables (cleared cc ks s t)) (for_each (restore_record ks) recs empty_tables)"
proof -
  from assms(3) obtain records where records: "py_getitem snap ''knowledge'' = Inr records"
    "py_iter records = Inr recs"
    by (auto simp: snapshot_records_def ebind_eq_Inr)
  have "restore_statements cc snap t = for_each (restore_record ks) recs (cleared cc ks s t)"
    using assms(1,2) records
    by (simp add: restore_statements_def delete_knowledge_def delete_connectivity_nodes_def cleared_def)
  also have "\<dots> = for_each (restore_record ks) recs (extend_tables (cleared cc ks s t) empty_tables)"
    by simp
  also have "\<dots> = map_sum id (extend_tables (cleared cc ks s t)) (for_each (restore_record ks) recs empty_tables)"
    by (rule for_each_records_frame) (rule no_rows_of_cleared [OF assms(2)])
  finally show ?thesis .
qed

lemma restore_statements_Inr:
  assumes "restore_statements cc snap t = Inr t'"
  obtains ks s recs a where "py_getitem snap ''source'' = Inr ks" "sql_bind ks = Inr s"
    "snapshot_records snap = Inr recs" "for_each (restore_record ks) recs empty_tables = Inr a"
    "t' = extend_tables (cleared cc ks s t) a"
proof -
  from assms obtain ks s records recs where
    *: "py_getitem snap ''source'' = Inr ks" "sql_bind ks = Inr s"
       "py_getitem snap ''knowledge'' = Inr records" "py_iter records = Inr recs"
    by (auto simp: restore_statements_def delete_knowledge_def ebind_eq_Inr)
  then have recs: "snapshot_records snap = Inr recs" by (simp add: snapshot_records_def)
  from restore_statements_eq [OF *(1,2) recs, of cc t] assms
  obtain a where "for_each (restore_record ks) recs empty_tables = Inr a"
    "t' = extend_tables (cleared cc ks s t) a"
    by (cases "for_each (restore_record ks) recs empty_tables") auto
  with * recs that show thesis by blast
qed

lemma restore_Some_cases:
  obtains (fail) e where "restore cc snap (Some d) = (Some e, Some d)" "restore_statements cc snap (pending d) = Inl e"
  | (ok) t where "restore cc snap (Some d) = (None, Some (connect t))" "restore_statements cc snap (pending d) = Inr t"
  by (cases "restore_statements cc snap (pending d)") (auto simp: restore_def commit_def connect_def)

lemma restore_success:
  assumes "restore cc snap (Some (connect st)) = (None, Some d)"
  obtains ks s recs a where "py_getitem snap ''source'' = Inr ks" "sql_bind ks = Inr s"
    "snapshot_records snap = Inr recs" "for_each (restore_record ks) recs empty_tables = Inr a"
    "committed d = extend_tables (cleared cc ks s st) a"
proof (cases rule: restore_Some_cases [of cc snap "connect st"])
  case (fail e)
  with assms show ?thesis by simp
next
  case (ok t)
  with assms have d: "d = connect t" and run: "restore_statements cc snap st = Inr t"
    by (simp_all add: connect_def)
  from run that d show ?thesis
    by (elim restore_statements_Inr) (simp add: connect_def)
qed

lemma restore_knowledge_rows:
  assumes "restore cc snap (Some (connect st)) = (None, Some d)"
    and "py_getitem snap ''source'' = Inr ks" and "sql_bind ks = Inr s"
    and "snapshot_records snap = Inr recs"
  shows "\<exists>rows. knowledge (committed d) =
             filter (\<lambda>r. \<not> sql_eq (fst r) s) (knowledge (cc ks st)) @ rows \<and>
           map (\<lambda>r. snd (snd r)) rows = recs \<and>
           (\<forall>r\<in>set rows. fst r = s \<and>
              ebind (py_getitem (snd (snd r)) ''id'') sql_bind = Inr (fst (snd r)))"
proof -
  from assms(1) obtain ks' s' recs' a where
    *: "py_getitem snap ''source'' = Inr ks'" "sql_bind ks' = Inr s'"
       "snapshot_records snap = Inr recs'" "for_each (restore_record ks') recs' empty_tables = Inr a"
       "committed d = extend_tables (cleared cc ks' s' st) a"
    by (rule restore_success)
  with assms(2-4) have eq: "ks' = ks" "s' = s" "recs' = recs" by simp_all
  from for_each_records_effect(1) [OF *(4) *(2)] obtain rows where
    rows: "knowledge a = rows" "map (\<lambda>r. snd (snd r)) rows = recs'"
      "\<forall>r\<in>set rows. fst r = s' \<and> record_entity (snd (snd r)) = Inr (fst (snd r))"
    by (auto simp: empty_tables_def)
  show ?thesis
    using rows *(5) eq
    by (intro exI [of _ rows]) (simp add: cleared_def record_entity_def)
qed







lemma cleared_extend_idem:
  assumes "deletes_rows cc" and "s \<noteq> SNull"
    and "\<forall>r\<in>set (knowledge a). fst r = s"
    and "\<forall>r\<in>set (connectivity_nodes a). fst r = s"
    and "\<forall>r\<in>set (labels a). fst r \<noteq> SNull"
    and "publications a = []"
  shows "extend_tables (cleared cc ks s (extend_tables (cleared cc ks s t) a)) a =
         extend_tables (cleared cc ks s t) a"
proof -
  from assms(1) obtain kk kl kp kc where cc: "\<And>v t. cc v t =
        \<lparr>knowledge = filter (kk v) (knowledge t),
         labels = filter (kl v) (labels t),
         publications = filter (kp v) (publications t),
         connectivity_nodes = filter (kc v) (connectivity_nodes t)\<rparr>"
    unfolding deletes_rows_def by blast
  have k: "filter (\<lambda>r. \<not> sql_eq (fst r) s) (filter (kk ks) (knowledge a)) = []"
    using assms(2,3) by (intro filter_none) (auto simp: sql_eq_def)
  have c: "filter (\<lambda>r. \<not> sql_eq (fst r) s) (filter (kc ks) (connectivity_nodes a)) = []"
    using assms(2,4) by (intro filter_none) (auto simp: sql_eq_def)
  have l: "filter (\<lambda>r. \<not> list_ex (\<lambda>r'. sql_eq (fst r) (fst r')) (labels a)) (filter (kl ks) (labels a)) = []"
    using assms(5) by (intro filter_none) (auto simp: sql_eq_def list_ex_iff)
  show ?thesis
    using k c l assms(6)
    by (simp add: extend_tables_def cleared_def cc conj_commute cong: conj_cong)
qed

section \<open>The unique index\<close>

lemma knowledge_unique_filter: "knowledge_unique rows \<Longrightarrow> knowledge_unique (filter P rows)"
  by (induction rows) (auto simp: list_ex_iff)

lemma knowledge_conflict_sym:
  "knowledge_conflict (fst r) (fst (snd r)) r' \<longleftrightarrow> knowledge_conflict (fst r') (fst (snd r')) r"
  by (auto simp: knowledge_conflict_def sql_eq_def)

lemma knowledge_unique_snoc:
  "knowledge_unique (rows @ [(s, e, p)]) \<longleftrightarrow>
     knowledge_unique rows \<and> \<not> list_ex (knowledge_conflict s e) rows"
  by (induction rows) (auto simp: list_ex_iff knowledge_conflict_def sql_eq_def)

lemma restore_record_unique:
  assumes "restore_record ks rec t = Inr t'" and "sql_bind ks = Inr s"
    and "knowledge_unique (knowledge t)"
  shows "knowledge_unique (knowledge t')"
  using restore_record_effect [OF assms(1,2)] assms(3) by (auto simp: knowledge_unique_snoc)

lemma restore_statements_unique:
  assumes "restore_statements cc snap t = Inr t'"
    and "\<And>ks. knowledge_unique (knowledge (cc ks t))"
  shows "knowledge_unique (knowledge t')"
proof -
  from assms(1) obtain ks s recs where
    *: "py_getitem snap ''source'' = Inr ks" "sql_bind ks = Inr s"
    and run: "for_each (restore_record ks) recs (cleared cc ks s t) = Inr t'"
    by (auto simp: restore_statements_def delete_knowledge_def delete_connectivity_nodes_def
          cleared_def ebind_eq_Inr)
  have start: "knowledge_unique (knowledge (cleared cc ks s t))"
    using assms(2) [of ks] by (simp add: cleared_def knowledge_unique_filter)
  show ?thesis
    by (rule for_each_invariant [where P = "\<lambda>u. knowledge_unique (knowledge u)", OF run start])
       (rule restore_record_unique [OF _ *(2)])
qed

lemma delete_source_unique:
  "delete_source ks t = Inr t' \<Longrightarrow> knowledge_unique (knowledge t) \<Longrightarrow> knowledge_unique (knowledge t')"
  by (auto simp: delete_source_def delete_knowledge_def delete_connectivity_nodes_def ebind_eq_Inr
        knowledge_unique_filter)

lemma entity_knowledge_unique:
  "entity_knowledge rem ks path t = Inr t' \<Longrightarrow> knowledge_unique (knowledge t) \<Longrightarrow>
   knowledge_unique (knowledge t')"
  by (auto simp: entity_knowledge_def upsert_knowledge_def prepare_insert_def ebind_eq_Inr
        knowledge_unique_snoc knowledge_unique_filter list_ex_iff)

lemma load_unique:
  assumes "knowledge_unique (knowledge st)"
  shows "\<exists>t. persisted (load key r (Some (connect st))) = Some t \<and> knowledge_unique (knowledge t)"
proof (cases key)
  case None
  then show ?thesis using assms by (simp add: load_def persisted_def connect_def)
next
  case (Some k)
  show ?thesis
  proof (cases "resolve_source r")
    case (Inl e)
    then show ?thesis using assms Some by (simp add: load_def persisted_def connect_def)
  next
    case (Inr p)
    obtain ks rem where p: "p = (ks, rem)" by (cases p)
    show ?thesis
    proof (cases "delete_source ks st")
      case (Inl e)
      then show ?thesis using assms Some Inr p by (simp add: load_def persisted_def connect_def)
    next
      case del: (Inr t)
      have t: "knowledge_unique (knowledge t)" by (rule delete_source_unique [OF del assms])
      show ?thesis
      proof (cases "connectivity_paths rem")
        case (Inl e)
        then show ?thesis using t Some Inr p del
          by (simp add: load_def persisted_def connect_def commit_def)
      next
        case paths: (Inr paths)
        show ?thesis
        proof (cases "for_each (entity_knowledge rem ks) paths t")
          case (Inl e)
          then show ?thesis using t Some Inr p del paths
            by (simp add: load_def persisted_def connect_def commit_def)
        next
          case run: (Inr t')
          have "knowledge_unique (knowledge t')"
            by (rule for_each_invariant [where P = "\<lambda>u. knowledge_unique (knowledge u)", OF run t])
               (rule entity_knowledge_unique)
          then show ?thesis using Some Inr p del paths run
            by (simp add: load_def persisted_def connect_def commit_def close_def)
        qed
      qed
    qed
  qed
qed

section \<open>Extraction\<close>

lemma extract_rows:
  assumes "for_each extract_row rows saved = Inr saved'"
  shows "saved' = saved @ map inject_id rows \<and>
         (\<forall>row\<in>set rows. py_getitem (inject_id row) ''id'' = Inr (sql_value (fst row)))"
  using assms
proof (induction rows arbitrary: saved)
  case Nil
  then show ?case by simp
next
  case (Cons row rows)
  then obtain u where u: "extract_row row saved = Inr u" and rest: "for_each extract_row rows u = Inr saved'"
    by (auto simp: ebind_eq_Inr)
  from u obtain kvs where kvs: "snd row = JObj kvs"
    by (cases "snd row") (auto simp: extract_row_def py_setitem_def)
  with u have "u = saved @ [inject_id row]"
    by (auto simp: extract_row_def py_setitem_def inject_id_def)
  moreover have "py_getitem (inject_id row) ''id'' = Inr (sql_value (fst row))"
    using kvs by (simp add: inject_id_def py_getitem_def update_conv')
  ultimately show ?case using Cons.IH [OF rest] by simp
qed

lemma rows_determined:
  assumes "map (\<lambda>r. snd (snd r)) rows = map g xs"
    and "\<forall>r\<in>set rows. fst r = s \<and> h (snd (snd r)) = Inr (fst (snd r))"
    and "\<forall>x\<in>set xs. \<forall>c. h (g x) = Inr c \<longrightarrow> c = k x"
  shows "rows = map (\<lambda>x. (s, k x, g x)) xs"
  using assms
proof (induction xs arbitrary: rows)
  case Nil
  then show ?case by simp
next
  case (Cons x xs)
  then obtain r rs where rows: "rows = r # rs" by (cases rows) auto
  with Cons.prems have "r = (s, k x, g x)"
    by (cases r) auto
  moreover have "rs = map (\<lambda>x. (s, k x, g x)) xs"
    using Cons.prems rows by (intro Cons.IH) auto
  ultimately show ?case using rows by simp
qed

section \<open>The operations on the concrete stores\<close>

lemmas concrete_defs =
  two_path_snapshot_def two_path_record_1_def two_path_record_2_def two_path_store_def
  one_path_store_def clean_nothing_def node_a_def node_b_def node_c_def empty_tables_def

lemma restore_two_paths:
  "restore clean_nothing two_path_snapshot (Some (connect one_path_store)) =
     (None, Some (connect two_path_store))"
  by (simp add: restore_unfold concrete_defs)

lemma two_path_source: "py_getitem two_path_snapshot ''source'' = Inr (JStr ''npo-2023'')"
  by (simp add: py_getitem_def two_path_snapshot_def)

lemma two_path_bind: "sql_bind (JStr ''npo-2023'') = Inr (SText ''npo-2023'')"
  by (simp add: sql_bind_def)

lemma two_path_records:
  "snapshot_records two_path_snapshot = Inr [two_path_record_1, two_path_record_2]"
  by (simp add: snapshot_records_def py_getitem_def py_iter_def two_path_snapshot_def)

lemma clean_nothing_deletes_rows: "deletes_rows clean_nothing"
  unfolding deletes_rows_def
  by (intro exI [of _ "\<lambda>v r. True"]) (simp add: clean_nothing_def)

lemma load_labelled:
  "load (Some ''key'') (Inr labelled_remote) (Some (connect empty_tables)) =
     (None, Some (connect loaded_store))"
  by (simp add: load_def resolve_source_def labelled_remote_def delete_source_def
        delete_knowledge_def delete_connectivity_nodes_def sql_bind_def connect_def commit_def
        close_def entity_knowledge_def upsert_knowledge_def prepare_insert_def label_only_def
        loaded_store_def empty_tables_def)

lemma extract_loaded:
  "extract_json rev (JStr ''npo-2023'') (Some (connect loaded_store)) =
     (Inr extracted_snapshot, Some (connect loaded_store))"
  by (simp add: extract_json_def sql_bind_def select_knowledge_def connect_def loaded_store_def
        sql_eq_def extract_row_def py_setitem_def sql_value_def extracted_snapshot_def)

lemma extract_two_rows:
  "extract_json rev (JStr ''npo-2023'') (Some (connect two_row_store)) =
     (Inr two_row_snapshot, Some (connect two_row_store))"
  by (simp add: extract_json_def sql_bind_def select_knowledge_def connect_def two_row_store_def
        sql_eq_def extract_row_def py_setitem_def sql_value_def two_row_snapshot_def)

lemma restore_two_rows:
  "restore clean_nothing two_row_snapshot (Some (connect empty_tables)) =
     (None, Some (connect two_row_restored))"
  by (simp add: restore_unfold two_row_snapshot_def two_row_restored_def clean_nothing_def
        empty_tables_def)

lemma rev_rearranges: "\<forall>rows. mset (rev rows) = mset rows"
  by simp

lemma restore_extracted:
  "restore clean_nothing extracted_snapshot (Some (connect empty_tables)) =
     (None, Some (connect round_trip_store))"
  by (simp add: restore_unfold extracted_snapshot_def round_trip_store_def clean_nothing_def
        empty_tables_def)

lemma load_failing:
  "load (Some ''key'') (Inr failing_remote) (Some (connect one_path_store)) =
     (Some RemoteUnavailableError, Some (connect (one_path_store\<lparr>knowledge := []\<rparr>)))"
  by (simp add: load_def resolve_source_def failing_remote_def delete_source_def
        delete_knowledge_def delete_connectivity_nodes_def sql_bind_def connect_def commit_def
        entity_knowledge_def no_knowledge_def one_path_store_def sql_eq_def)

section \<open>The claims\<close>

subsection \<open>C1: deduplication of connectivity nodes\<close>




subsection \<open>C2: the commits of Load\<close>

text \<open>
  C2, as stated: Load commits once, after the loop over the paths, so a failure in the loop
  leaves the store as it was before. It fails: line 55 commits the deletion of the source's
  rows before the path list is asked for. Here the only path cannot be fetched, and the
  store has lost the knowledge row it had.
\<close>

theorem load_failure_loses_rows_counterexample:
  "load (Some ''key'') (Inr failing_remote) (Some (connect one_path_store)) =
     (Some RemoteUnavailableError, Some (connect (one_path_store\<lparr>knowledge := []\<rparr>))) \<and>
   persisted (load (Some ''key'') (Inr failing_remote) (Some (connect one_path_store))) \<noteq>
     Some one_path_store"
  apply (simp add: load_failing persisted_def)
  apply (simp add: one_path_store_def)
  done

text \<open>
  C2, amended: Load commits the deletion of the source's knowledge and connectivity node rows
  before it iterates, and commits the loaded records when the store is closed after the
  loop. A failure while the paths are listed or fetched leaves the store as it was before
  the operation, less those rows of the source.
\<close>

theorem load_failure_after_delete:
  assumes "fst (load (Some key) (Inr rem) (Some (connect st))) = Some e"
    and "delete_source (source_id rem) st = Inr t"
  shows "persisted (load (Some key) (Inr rem) (Some (connect st))) = Some t"
  using assms
  by (auto simp: load_def resolve_source_def connect_def commit_def persisted_def Let_def
        split: sum.splits)

theorem load_failure_after_delete_witness:
  "fst (load (Some ''key'') (Inr failing_remote) (Some (connect one_path_store))) =
     Some RemoteUnavailableError \<and>
   delete_source (source_id failing_remote) one_path_store = Inr (one_path_store\<lparr>knowledge := []\<rparr>) \<and>
   persisted (load (Some ''key'') (Inr failing_remote) (Some (connect one_path_store))) =
     Some (one_path_store\<lparr>knowledge := []\<rparr>)"
proof -
  have failed: "fst (load (Some ''key'') (Inr failing_remote) (Some (connect one_path_store))) =
      Some RemoteUnavailableError"
    by (simp add: load_failing)
  have deleted: "delete_source (source_id failing_remote) one_path_store =
      Inr (one_path_store\<lparr>knowledge := []\<rparr>)"
    by (simp add: failing_remote_def delete_source_def delete_knowledge_def
          delete_connectivity_nodes_def sql_bind_def one_path_store_def sql_eq_def)
  from load_failure_after_delete [OF failed deleted] failed deleted show ?thesis by simp
qed

subsection \<open>C3: publications of a restored record\<close>

text \<open>
  C3. The claim: after a restore the publication rows of (source, E) are the record's
  \<^verbatim>\<open>references\<close>. Lines 131 to 133 are written to do so, deleting the rows of
  (source, E) and inserting one row for each reference, but the insert on line 132 names
  three columns and gives two values. Here the store has the publication
  \<^verbatim>\<open>PMID:123\<close> for \<^verbatim>\<open>path:1\<close> and the snapshot gives \<^verbatim>\<open>path:1\<close> the references
  \<^verbatim>\<open>["PMID:456"]\<close>: the restore ends with \<^verbatim>\<open>OperationalError\<close> and the store is as it
  was, with \<^verbatim>\<open>PMID:123\<close> and without \<^verbatim>\<open>PMID:456\<close>, whatever \<^verbatim>\<open>clean_connectivity\<close> does.
\<close>

theorem restore_references_not_written:
  "restore clean_connectivity references_snapshot (Some (connect one_path_store)) =
     (Some OperationalError, Some (connect one_path_store)) \<and>
   publications one_path_store = [(SText ''npo-2023'', SText ''path:1'', SText ''PMID:123'')]"
  apply (simp add: restore_unfold references_snapshot_def)
  apply (simp add: one_path_store_def)
  done

subsection \<open>C4: the scenario of the spec\<close>

text \<open>
  C4. The claim: restoring the scenario snapshot into an empty store succeeds and yields one
  knowledge row, one label row, one publication row and two connectivity node rows. In the
  code the record has a \<^verbatim>\<open>references\<close> field, so line 132 prepares an insert that names
  three columns and gives two values: SQLite refuses it, the restore ends with
  \<^verbatim>\<open>OperationalError\<close> before its commit, and the store is still empty. This holds whatever
  \<^verbatim>\<open>clean_connectivity\<close> does.
\<close>

theorem restore_scenario_fails:
  "restore clean_connectivity scenario_snapshot (Some (connect empty_tables)) =
     (Some OperationalError, Some (connect empty_tables))"
  by (simp add: restore_unfold scenario_snapshot_def)

subsection \<open>C5: a failed restore\<close>

text \<open>
  C5. When a restore ends with an exception, whatever the store and the snapshot, the store
  file holds what it held before: no statement of the restore was committed.
\<close>

theorem restore_failure_keeps_store:
  "fst (restore clean_connectivity saved_knowledge (Some d)) = Some e \<Longrightarrow>
   persisted (restore clean_connectivity saved_knowledge (Some d)) = Some (committed d)"
  by (auto simp: restore_def persisted_def split: sum.splits)

theorem restore_failure_keeps_store_witness:
  "fst (restore clean_nothing malformed_snapshot (Some (connect one_path_store))) = Some TypeError \<and>
   persisted (restore clean_nothing malformed_snapshot (Some (connect one_path_store))) =
     Some one_path_store"
proof -
  have failed: "fst (restore clean_nothing malformed_snapshot (Some (connect one_path_store))) =
      Some TypeError"
    by (simp add: restore_unfold malformed_snapshot_def one_path_store_def clean_nothing_def)
  from restore_failure_keeps_store [OF failed] failed show ?thesis
    by (simp add: connect_def)
qed

subsection \<open>C6: extract, then restore\<close>

text \<open>
  C6, as stated: restoring the snapshot extracted from a just-loaded store into a fresh store
  yields the knowledge rows of the loaded store, up to order. It fails: \<open>extract_row\<close> stores
  the entity under \<^verbatim>\<open>id\<close> in the payload and \<open>restore_record\<close> stores the whole record. Here
  the remote's record has a label only; the restored payload has the label and the id.
\<close>

theorem round_trip_counterexample:
  "load (Some ''key'') (Inr labelled_remote) (Some (connect empty_tables)) =
     (None, Some (connect loaded_store)) \<and>
   extract_json rev (JStr ''npo-2023'') (Some (connect loaded_store)) =
     (Inr extracted_snapshot, Some (connect loaded_store)) \<and>
   restore clean_nothing extracted_snapshot (Some (connect empty_tables)) =
     (None, Some (connect round_trip_store)) \<and>
   mset (knowledge round_trip_store) \<noteq> mset (knowledge loaded_store)"
  apply (simp add: load_labelled extract_loaded restore_extracted)
  apply (simp add: round_trip_store_def loaded_store_def)
  done

text \<open>
  C6, amended: when the snapshot extracted for a source can be restored into a fresh store,
  the restored knowledge rows of the source are, up to order, the rows the store had for
  it, each with its entity stored under \<^verbatim>\<open>id\<close> in its payload; they are stored in the
  order in which the query of Extract gave them, whatever that order is. They are the
  original rows where every payload already had that \<^verbatim>\<open>id\<close>.
\<close>

theorem round_trip_injects_id:
  assumes "\<forall>rows. mset (query_order rows) = mset rows"
    and "extract_json query_order src (Some (connect st)) = (Inr doc, dbo)"
    and "restore clean_connectivity doc (Some (connect empty_tables)) = (None, Some d)"
    and "sql_bind src = Inr s"
  shows "mset (filter (\<lambda>r. sql_eq (fst r) s) (knowledge (committed d))) =
           mset (map (\<lambda>r. (fst r, fst (snd r), inject_id (snd r)))
             (filter (\<lambda>r. sql_eq (fst r) s) (knowledge st))) \<and>
         filter (\<lambda>r. sql_eq (fst r) s) (knowledge (committed d)) =
           map (\<lambda>row. (s, fst row, inject_id row)) (select_knowledge query_order s st)"
proof -
  from assms(2,4) obtain saved where nonnull: "src \<noteq> JNull"
    and saved: "for_each extract_row (select_knowledge query_order s st) [] = Inr saved"
    and doc: "doc = JObj [(''source'', src), (''knowledge'', JArr saved)]"
    by (auto simp: extract_json_def connect_def ebind_eq_Inr split: if_splits)
  from extract_rows [OF saved]
  have saved_eq: "saved = map inject_id (select_knowledge query_order s st)"
    and ids: "\<forall>row\<in>set (select_knowledge query_order s st).
        py_getitem (inject_id row) ''id'' = Inr (sql_value (fst row))"
    by simp_all
  have src: "py_getitem doc ''source'' = Inr src" and recs: "snapshot_records doc = Inr saved"
    by (simp_all add: doc py_getitem_def snapshot_records_def py_iter_def)
  have s: "s \<noteq> SNull"
    using assms(4) nonnull by (auto dest: sql_bind_not_null)
  from restore_knowledge_rows [OF assms(3) src assms(4) recs] obtain rows where
    rows: "knowledge (committed d) =
        filter (\<lambda>r. \<not> sql_eq (fst r) s) (knowledge (clean_connectivity src empty_tables)) @ rows"
      "map (\<lambda>r. snd (snd r)) rows = saved"
      "\<forall>r\<in>set rows. fst r = s \<and>
         ebind (py_getitem (snd (snd r)) ''id'') sql_bind = Inr (fst (snd r))"
    by blast
  have rows_eq: "rows = map (\<lambda>x. (s, fst x, inject_id x)) (select_knowledge query_order s st)"
  proof (rule rows_determined [where h = "\<lambda>p. ebind (py_getitem p ''id'') sql_bind"])
    show "map (\<lambda>r. snd (snd r)) rows = map inject_id (select_knowledge query_order s st)"
      using rows(2) saved_eq by simp
    show "\<forall>r\<in>set rows. fst r = s \<and>
        ebind (py_getitem (snd (snd r)) ''id'') sql_bind = Inr (fst (snd r))"
      by (rule rows(3))
    show "\<forall>x\<in>set (select_knowledge query_order s st).
        \<forall>c. ebind (py_getitem (inject_id x) ''id'') sql_bind = Inr c \<longrightarrow> c = fst x"
      using ids by (auto dest: sql_bind_value)
  qed
  have "filter (\<lambda>r. sql_eq (fst r) s) rows = rows"
    using rows(3) s by (auto simp: sql_eq_def filter_id_conv)
  then have restored: "filter (\<lambda>r. sql_eq (fst r) s) (knowledge (committed d)) = rows"
    unfolding rows(1) by (simp add: conj_commute cong: conj_cong)
  have "mset rows =
      image_mset (\<lambda>x. (s, fst x, inject_id x))
        (mset (map snd (filter (\<lambda>r. sql_eq (fst r) s) (knowledge st))))"
    unfolding rows_eq select_knowledge_def using assms(1) by simp
  also have "\<dots> = mset (map (\<lambda>r. (fst r, fst (snd r), inject_id (snd r)))
      (filter (\<lambda>r. sql_eq (fst r) s) (knowledge st)))"
    by (auto simp: sql_eq_def multiset.map_comp comp_def intro!: image_mset_cong)
  finally show ?thesis using restored rows_eq by simp
qed

theorem round_trip_injects_id_witness:
  "mset (filter (\<lambda>r. sql_eq (fst r) (SText ''npo-2023'')) (knowledge two_row_restored)) =
     mset (map (\<lambda>r. (fst r, fst (snd r), inject_id (snd r)))
       (filter (\<lambda>r. sql_eq (fst r) (SText ''npo-2023'')) (knowledge two_row_store))) \<and>
   knowledge two_row_restored \<noteq>
     map (\<lambda>r. (fst r, fst (snd r), inject_id (snd r))) (knowledge two_row_store)"
proof -
  note round_trip =
    round_trip_injects_id [OF rev_rearranges extract_two_rows restore_two_rows two_path_bind,
      unfolded connect_sel]
  have up_to_order:
    "mset (filter (\<lambda>r. sql_eq (fst r) (SText ''npo-2023'')) (knowledge two_row_restored)) =
       mset (map (\<lambda>r. (fst r, fst (snd r), inject_id (snd r)))
         (filter (\<lambda>r. sql_eq (fst r) (SText ''npo-2023'')) (knowledge two_row_store)))"
    by (rule conjunct1 [OF round_trip])
  have reordered: "knowledge two_row_restored \<noteq>
      map (\<lambda>r. (fst r, fst (snd r), inject_id (snd r))) (knowledge two_row_store)"
    by (simp add: two_row_restored_def two_row_store_def)
  from up_to_order reordered show ?thesis by (intro conjI)
qed

subsection \<open>C7: an unavailable remote\<close>

text \<open>
  C7. A remote that cannot be reached or authenticated makes the resolution of the source
  id fail; Load then ends with that exception before its first statement, and the
  connection is as it was opened. Without the credential Load exits before it opens the
  store.
\<close>

theorem load_remote_unavailable:
  "load (Some key) (Inl RemoteUnavailableError) (Some (connect st)) =
     (Some RemoteUnavailableError, Some (connect st)) \<and>
   persisted (load None r (Some (connect st))) = Some st"
  by (simp add: load_def resolve_source_def persisted_def connect_def)

subsection \<open>C8: restoring twice\<close>

text \<open>
  C8. Restoring a snapshot into the store a restore of the same snapshot has left gives the
  same outcome and leaves the same store, whatever the store was. The snapshot has the
  shape the spec gives it (neither its source nor an id is \<^verbatim>\<open>null\<close>), and
  \<^verbatim>\<open>clean_connectivity\<close> only deletes rows.
\<close>

theorem restore_idempotent:
  assumes "deletes_rows clean_connectivity" and "null_free snap"
    and "restore clean_connectivity snap (Some (connect st)) = (r, Some d)"
  shows "restore clean_connectivity snap (Some (connect (committed d))) = (r, Some d)"
proof (cases rule: restore_Some_cases [of clean_connectivity snap "connect st"])
  case (fail e)
  with assms(3) show ?thesis by (simp add: connect_def)
next
  case (ok t)
  with assms(3) have r: "r = None" and d: "d = connect t" by simp_all
  from ok(2) have run: "restore_statements clean_connectivity snap st = Inr t" by (simp add: connect_def)
  from run obtain ks s recs a where
    *: "py_getitem snap ''source'' = Inr ks" "sql_bind ks = Inr s"
       "snapshot_records snap = Inr recs" "for_each (restore_record ks) recs empty_tables = Inr a"
       "t = extend_tables (cleared clean_connectivity ks s st) a"
    by (rule restore_statements_Inr)
  have s: "s \<noteq> SNull"
    using assms(2) *(1,2) by (auto simp: null_free_def dest: sql_bind_not_null)
  have ids: "\<forall>rec\<in>set recs. record_entity rec \<noteq> Inr SNull"
    using assms(2) *(3) by (auto simp: null_free_def list_all_iff record_entity_def ebind_eq_Inr dest: sql_bind_not_null)
  note eff = for_each_records_effect [OF *(4) *(2)]
  have k: "\<forall>r\<in>set (knowledge a). fst r = s"
    using eff(1) by (auto simp: empty_tables_def)
  have c: "\<forall>r\<in>set (connectivity_nodes a). fst r = s"
    using eff(3) by (auto simp: empty_tables_def)
  have l: "\<forall>r\<in>set (labels a). fst r \<noteq> SNull"
    using eff(4) ids by (fastforce simp: empty_tables_def)
  have p: "publications a = []"
    using eff(2) by (simp add: empty_tables_def)
  have "restore_statements clean_connectivity snap t = Inr (extend_tables (cleared clean_connectivity ks s t) a)"
    by (simp add: restore_statements_eq [OF *(1,2,3)] *(4))
  also have "extend_tables (cleared clean_connectivity ks s t) a = t"
    unfolding *(5) by (rule cleared_extend_idem [OF assms(1) s k c l p])
  finally have "restore clean_connectivity snap (Some (connect t)) = (None, Some (connect t))"
    by (simp add: restore_def connect_def commit_def)
  then show ?thesis using r d by (simp add: connect_def)
qed

theorem restore_idempotent_witness:
  "deletes_rows clean_nothing \<and> null_free two_path_snapshot \<and>
   restore clean_nothing two_path_snapshot (Some (connect one_path_store)) =
     (None, Some (connect two_path_store)) \<and>
   restore clean_nothing two_path_snapshot (Some (connect two_path_store)) =
     (None, Some (connect two_path_store))"
proof -
  have ids: "py_getitem two_path_record_1 ''id'' = Inr (JStr ''path:1'')"
    "py_getitem two_path_record_2 ''id'' = Inr (JStr ''path:2'')"
    by (simp_all add: py_getitem_def two_path_record_1_def two_path_record_2_def)
  have shape: "null_free two_path_snapshot"
    by (simp add: null_free_def two_path_source two_path_records ids)
  from restore_idempotent [OF clean_nothing_deletes_rows shape restore_two_paths]
    clean_nothing_deletes_rows shape restore_two_paths
  show ?thesis by (simp add: connect_def)
qed

subsection \<open>C9: (source, entity) is unique in the knowledge table\<close>

text \<open>
  C9. Every operation leaves (source, entity) unique in the knowledge table of the store
  file: Restore and Load whether they succeed or fail, Extract and Info because they leave
  the connection as it was. \<^verbatim>\<open>clean_connectivity\<close> runs on the same database and keeps the
  index. A snapshot with two records of the same id is refused by the index on the second
  insert, and the restore fails.
\<close>

theorem knowledge_unique_preserved:
  assumes "knowledge_unique (knowledge st)"
    and "\<forall>ks t. knowledge_unique (knowledge t) \<longrightarrow> knowledge_unique (knowledge (clean_connectivity ks t))"
  shows "(\<exists>t. persisted (restore clean_connectivity snap (Some (connect st))) = Some t \<and> knowledge_unique (knowledge t)) \<and>
         (\<exists>t. persisted (load key r (Some (connect st))) = Some t \<and> knowledge_unique (knowledge t)) \<and>
         snd (extract_json query_order src (Some (connect st))) = Some (connect st) \<and>
         snd (info (connect st)) = connect st"
proof -
  have "\<exists>t. persisted (restore clean_connectivity snap (Some (connect st))) = Some t \<and> knowledge_unique (knowledge t)"
  proof (cases rule: restore_Some_cases [of clean_connectivity snap "connect st"])
    case (fail e)
    then show ?thesis using assms(1) by (simp add: persisted_def connect_def)
  next
    case (ok t)
    from ok(2) have "restore_statements clean_connectivity snap st = Inr t" by (simp add: connect_def)
    then have "knowledge_unique (knowledge t)"
      by (rule restore_statements_unique) (use assms in blast)
    then show ?thesis using ok(1) by (simp add: persisted_def connect_def)
  qed
  moreover note load_unique [OF assms(1), of key r]
  moreover have "snd (extract_json query_order src (Some (connect st))) = Some (connect st)"
    by (simp add: extract_json_def)
  moreover have "snd (info (connect st)) = connect st"
    by (simp add: info_def)
  ultimately show ?thesis by blast
qed

theorem knowledge_unique_preserved_witness:
  "fst (restore clean_nothing duplicate_snapshot (Some (connect one_path_store))) =
     Some IntegrityError \<and>
   (\<exists>t. persisted (restore clean_nothing duplicate_snapshot (Some (connect one_path_store))) = Some t \<and>
      knowledge_unique (knowledge t)) \<and>
   (\<exists>t. persisted (load (Some ''key'') (Inr labelled_remote) (Some (connect one_path_store))) = Some t \<and>
      knowledge_unique (knowledge t)) \<and>
   snd (extract_json rev (JStr ''npo-2023'') (Some (connect one_path_store))) =
     Some (connect one_path_store) \<and>
   snd (info (connect one_path_store)) = connect one_path_store"
proof -
  have unique: "knowledge_unique (knowledge one_path_store)"
    by (simp add: one_path_store_def)
  have keeps: "\<forall>ks t. knowledge_unique (knowledge t) \<longrightarrow>
      knowledge_unique (knowledge (clean_nothing ks t))"
    by (simp add: clean_nothing_def)
  have refused: "fst (restore clean_nothing duplicate_snapshot (Some (connect one_path_store))) =
      Some IntegrityError"
    by (simp add: restore_unfold duplicate_snapshot_def one_path_store_def clean_nothing_def)
  from knowledge_unique_preserved [OF unique keeps, of duplicate_snapshot "Some ''key''"
      "Inr labelled_remote" rev "JStr ''npo-2023''"] refused
  show ?thesis by simp
qed

subsection \<open>C10: the payload of a restored record\<close>

text \<open>
  C10. After a restore that succeeds, the knowledge rows of the source are one row for each
  record of the snapshot, in order; the payload of a row is the whole record, \<^verbatim>\<open>id\<close>
  included, and the \<^verbatim>\<open>id\<close> field of the payload is the entity of the row.
\<close>

theorem restored_payload_is_record:
  assumes "restore clean_connectivity snap (Some (connect st)) = (None, Some d)"
    and "py_getitem snap ''source'' = Inr ks" and "sql_bind ks = Inr s"
    and "snapshot_records snap = Inr recs"
  shows "\<exists>rows. knowledge (committed d) =
             filter (\<lambda>r. \<not> sql_eq (fst r) s) (knowledge (clean_connectivity ks st)) @ rows \<and>
           map (\<lambda>r. snd (snd r)) rows = recs \<and>
           (\<forall>r\<in>set rows. fst r = s \<and>
              ebind (py_getitem (snd (snd r)) ''id'') sql_bind = Inr (fst (snd r)))"
  using assms by (rule restore_knowledge_rows)

theorem restored_payload_is_record_witness:
  "map snd (map snd (knowledge two_path_store)) = [two_path_record_1, two_path_record_2] \<and>
   ebind (py_getitem two_path_record_1 ''id'') sql_bind = Inr (SText ''path:1'')"
  using restored_payload_is_record
    [OF restore_two_paths two_path_source two_path_bind two_path_records]
  by (auto simp: connect_def clean_nothing_def one_path_store_def two_path_store_def sql_eq_def
        py_getitem_def sql_bind_def two_path_record_1_def)

end
